theory Spec2Isabelle
  imports Complex_Main
begin

section \<open>Python values\<close>

text \<open>
  A Python \<open>str\<close> is a sequence of Unicode code points; a code point is a natural
  number.  \<open>ustr\<close> turns an ASCII literal of the source into such a string.
\<close>

type_synonym uchar = nat
type_synonym ustring = "uchar list"

definition ustr :: "string \<Rightarrow> ustring" where
  "ustr s = map of_char s"

text \<open>
  The values that travel through the checker are JSON values: rows of the record
  store, response bodies of the remote search services, and the scores and flags the
  checker adds.  A JSON object is an association list (first binding wins).
\<close>

datatype pyval =
    PNone
  | PBool bool
  | PInt int
  | PFloat rat
  | PStr ustring
  | PList "pyval list"
  | PDict "(ustring \<times> pyval) list"

type_synonym pydict = "(ustring \<times> pyval) list"

text \<open>Dictionaries the checker builds itself (match results, the update record).\<close>

type_synonym pymap = "ustring \<rightharpoonup> pyval"

datatype exn =
    AttributeError
  | TypeError
  | KeyError
  | RemoteError nat

text \<open>Truth value testing (\<open>if x:\<close>, \<open>not x\<close>, \<open>and\<close>, \<open>or\<close>).\<close>

fun truthy :: "pyval \<Rightarrow> bool" where
  "truthy PNone = False"
| "truthy (PBool b) = b"
| "truthy (PInt i) = (i \<noteq> 0)"
| "truthy (PFloat r) = (r \<noteq> 0)"
| "truthy (PStr s) = (s \<noteq> [])"
| "truthy (PList xs) = (xs \<noteq> [])"
| "truthy (PDict kvs) = (kvs \<noteq> [])"

text \<open>\<open>d.get(k, default)\<close> on a dictionary.\<close>

definition dict_get :: "pydict \<Rightarrow> ustring \<Rightarrow> pyval \<Rightarrow> pyval" where
  "dict_get d k dflt = (case map_of d k of None \<Rightarrow> dflt | Some v \<Rightarrow> v)"

text \<open>\<open>x.get(k, default)\<close> on any value: only a dictionary has the method.\<close>

fun py_get :: "pyval \<Rightarrow> ustring \<Rightarrow> pyval \<Rightarrow> exn + pyval" where
  "py_get (PDict d) k dflt = Inr (dict_get d k dflt)"
| "py_get _ k dflt = Inl AttributeError"

text \<open>\<open>m.get(k)\<close> on a dictionary built by the checker: \<open>None\<close> for a missing key.\<close>

definition map_get :: "pymap \<Rightarrow> ustring \<Rightarrow> pyval" where
  "map_get m k = (case m k of None \<Rightarrow> PNone | Some v \<Rightarrow> v)"

text \<open>\<open>m[k]\<close>: a missing key raises.\<close>

definition map_index :: "pymap \<Rightarrow> ustring \<Rightarrow> exn + pyval" where
  "map_index m k = (case m k of None \<Rightarrow> Inl KeyError | Some v \<Rightarrow> Inr v)"

text \<open>
  \<open>x[0]\<close> on a value that has passed \<open>if x:\<close>.  A list gives its first element, a
  string its first character; the keys of a JSON object are strings, so the key \<open>0\<close>
  is missing; the other values are not subscriptable.
\<close>

fun py_first :: "pyval \<Rightarrow> exn + pyval" where
  "py_first (PList (x # xs)) = Inr x"
| "py_first (PStr (c # cs)) = Inr (PStr [c])"
| "py_first (PDict kvs) = Inl KeyError"
| "py_first _ = Inl TypeError"

text \<open>
  \<open>for x in v\<close>: the elements of a list, the keys of a dictionary, the characters of
  a string; the other values are not iterable.
\<close>

fun py_iter :: "pyval \<Rightarrow> exn + pyval list" where
  "py_iter (PList xs) = Inr xs"
| "py_iter (PDict kvs) = Inr (map (\<lambda>kv. PStr (fst kv)) kvs)"
| "py_iter (PStr s) = Inr (map (\<lambda>c. PStr [c]) s)"
| "py_iter _ = Inl TypeError"

section \<open>The libraries and services the checker calls\<close>

text \<open>
  The Unicode tables, the fuzzy scorers of \<open>rapidfuzz\<close>, the \<open>phonenumbers\<close> parser,
  the remote search services and the record store are not part of the repository.
  They are parameters of the model, collected in one record; a theorem holds for every
  value of the record unless it states a hypothesis on it.

  A request records the object searched, the filters (property, operator, value) and the
  limit; the world is the log of the requests and store operations made so far, which
  the services may take into account.  Log lines and the pause between two leads have no
  effect on any result and are left out.
\<close>

datatype request =
    HubSpotSearch ustring "(ustring \<times> ustring \<times> pyval) list" nat
  | AirtableSearch ustring ustring nat

datatype store_op =
    StoreSelect "pyval option" int
  | StoreUpdate pyval pymap

record world =
  remote_log :: "request list"
  store_log :: "store_op list"

datatype phone_number = PhoneNumber nat nat

record env =
  str_lower :: "ustring \<Rightarrow> ustring"
  str_upper :: "ustring \<Rightarrow> ustring"
  str_format :: "pyval \<Rightarrow> ustring"
  nfkd :: "ustring \<Rightarrow> ustring"
  combining :: "uchar \<Rightarrow> nat"
  fuzz_ratio :: "ustring \<Rightarrow> ustring \<Rightarrow> rat"
  fuzz_token_set_ratio :: "ustring \<Rightarrow> ustring \<Rightarrow> rat"
  fuzz_partial_token_sort_ratio :: "ustring \<Rightarrow> ustring \<Rightarrow> rat"
  pn_parse :: "ustring \<Rightarrow> ustring option \<Rightarrow> exn + phone_number"
  pn_is_possible_number :: "phone_number \<Rightarrow> exn + bool"
  pn_is_valid_number :: "phone_number \<Rightarrow> exn + bool"
  pn_format_e164 :: "phone_number \<Rightarrow> exn + ustring"
  http :: "world \<Rightarrow> request \<Rightarrow> exn + pyval"
  store_query :: "pyval option \<Rightarrow> int \<Rightarrow> exn + unit"
  store_select :: "world \<Rightarrow> pyval option \<Rightarrow> int \<Rightarrow> exn + pydict list"
  store_update :: "world \<Rightarrow> pyval \<Rightarrow> pymap \<Rightarrow> exn + pyval"
  airtable :: "ustring option"
  now_isoformat :: "world \<Rightarrow> ustring"

section \<open>Normalizer\<close>

text \<open>
  The characters \<open>str.strip()\<close> removes and \<open>\s\<close> matches in a \<open>str\<close> pattern: the
  Unicode whitespace of CPython.
\<close>

definition is_space :: "uchar \<Rightarrow> bool" where
  "is_space c \<longleftrightarrow>
     (9 \<le> c \<and> c \<le> 13) \<or> (28 \<le> c \<and> c \<le> 32) \<or> c = 133 \<or> c = 160 \<or> c = 5760 \<or>
     (8192 \<le> c \<and> c \<le> 8202) \<or> c = 8232 \<or> c = 8233 \<or> c = 8239 \<or> c = 8287 \<or>
     c = 12288"

definition strip :: "ustring \<Rightarrow> ustring" where
  "strip s = rev (dropWhile is_space (rev (dropWhile is_space s)))"

text \<open>The class \<open>[a-z0-9]\<close>.\<close>

definition is_lower_alnum :: "uchar \<Rightarrow> bool" where
  "is_lower_alnum c \<longleftrightarrow> (97 \<le> c \<and> c \<le> 122) \<or> (48 \<le> c \<and> c \<le> 57)"

text \<open>\<open>re.sub(r"[^a-z0-9\s]", " ", s)\<close>\<close>

definition sub_other :: "ustring \<Rightarrow> ustring" where
  "sub_other s = map (\<lambda>c. if is_lower_alnum c \<or> is_space c then c else 32) s"

text \<open>\<open>re.sub(r"\s+", " ", s)\<close>: every maximal run of whitespace becomes one space.\<close>

function sub_spaces :: "ustring \<Rightarrow> ustring" where
  "sub_spaces [] = []"
| "sub_spaces (c # cs) =
     (if is_space c then 32 # sub_spaces (dropWhile is_space cs) else c # sub_spaces cs)"
  by pat_completeness auto
termination
  by (relation "measure length") (auto simp: length_dropWhile_le less_Suc_eq_le)

definition normalize_text :: "env \<Rightarrow> pyval \<Rightarrow> ustring" where
  "normalize_text e v =
     (case v of
        PStr s0 \<Rightarrow>
          (let s = str_lower e (strip s0);
               s = nfkd e s;
               s = filter (\<lambda>c. combining e c = 0) s;
               s = sub_other s;
               s = strip (sub_spaces s)
           in s)
      | _ \<Rightarrow> [])"

text \<open>
  What the Unicode tables do on the characters a normalized text is made of: lower-case
  ASCII letters, digits and the space have no lower-case mapping, no decomposition and
  combining class 0.
\<close>

definition is_plain :: "uchar \<Rightarrow> bool" where
  "is_plain c \<longleftrightarrow> is_lower_alnum c \<or> c = 32"

definition unicode_fixes_plain :: "env \<Rightarrow> bool" where
  "unicode_fixes_plain e \<longleftrightarrow>
     (\<forall>s. list_all is_plain s \<longrightarrow> str_lower e s = s \<and> nfkd e s = s) \<and>
     (\<forall>c. is_plain c \<longrightarrow> combining e c = 0)"

text \<open>The shape of a normalized text: plain characters, single inner spaces only.\<close>

fun single_spaced :: "ustring \<Rightarrow> bool" where
  "single_spaced [] = True"
| "single_spaced [c] = True"
| "single_spaced (c # d # cs) = (\<not> (c = 32 \<and> d = 32) \<and> single_spaced (d # cs))"

definition is_normalized :: "ustring \<Rightarrow> bool" where
  "is_normalized s \<longleftrightarrow>
     list_all is_plain s \<and> single_spaced s \<and>
     (s \<noteq> [] \<longrightarrow> hd s \<noteq> 32 \<and> last s \<noteq> 32)"


text \<open>
  \<open>normalize_phone\<close>.  The body of the \<open>try\<close> block is \<open>normalize_phone_try\<close>; every
  exception of the block is caught and gives \<open>None\<close>.
\<close>

definition ex_bind :: "exn + 'a \<Rightarrow> ('a \<Rightarrow> exn + 'b) \<Rightarrow> exn + 'b" where
  "ex_bind m f = (case m of Inl ex \<Rightarrow> Inl ex | Inr x \<Rightarrow> f x)"

definition try_except :: "exn + 'a \<Rightarrow> (exn \<Rightarrow> exn + 'a) \<Rightarrow> exn + 'a" where
  "try_except m h = (case m of Inl ex \<Rightarrow> h ex | Inr x \<Rightarrow> Inr x)"

definition normalize_phone_try :: "env \<Rightarrow> ustring \<Rightarrow> ustring option \<Rightarrow> exn + ustring option" where
  "normalize_phone_try e raw dflt =
     ex_bind (pn_parse e raw dflt) (\<lambda>num.
     ex_bind (pn_is_possible_number e num) (\<lambda>possible.
     if \<not> possible then Inr None
     else ex_bind (pn_is_valid_number e num) (\<lambda>valid.
     if \<not> valid then Inr None
     else ex_bind (pn_format_e164 e num) (\<lambda>s. Inr (Some s)))))"

text \<open>The default region: the upper-cased country code, if it is a non-blank string.\<close>

definition default_region :: "env \<Rightarrow> pyval \<Rightarrow> ustring option" where
  "default_region e country_code =
     (case country_code of
        PStr cc \<Rightarrow> if strip cc \<noteq> [] then Some (str_upper e cc) else None
      | _ \<Rightarrow> None)"

definition normalize_phone :: "env \<Rightarrow> pyval \<Rightarrow> pyval \<Rightarrow> exn + ustring option" where
  "normalize_phone e phone country_code =
     (case phone of
        PStr p \<Rightarrow>
          if strip p = [] then Inr None
          else
            (let raw = strip p;
                 dflt = default_region e country_code
             in try_except (normalize_phone_try e raw dflt) (\<lambda>ex. Inr None))
      | _ \<Rightarrow> Inr None)"

section \<open>Candidate source adapters\<close>

text \<open>
  A computation reads and extends the world (the log of the remote requests and of the
  store operations issued so far) and returns a value or raises.
\<close>

type_synonym 'a io = "world \<Rightarrow> (exn + 'a) \<times> world"

definition io_ret :: "'a \<Rightarrow> 'a io" where
  "io_ret x w = (Inr x, w)"

definition io_lift :: "exn + 'a \<Rightarrow> 'a io" where
  "io_lift r w = (r, w)"

definition io_bind :: "'a io \<Rightarrow> ('a \<Rightarrow> 'b io) \<Rightarrow> 'b io" where
  "io_bind m f w = (case m w of (Inl ex, w') \<Rightarrow> (Inl ex, w') | (Inr x, w') \<Rightarrow> f x w')"

text \<open>
  The \<open>try\<close> block the four HubSpot searches share: post the search, check the status,
  decode the body and read \<open>results\<close> (default \<open>[]\<close>); any exception gives \<open>[]\<close>.  The
  remote service answers through \<open>http\<close>, which sees the requests made before.
\<close>

definition hubspot_search :: "env \<Rightarrow> request \<Rightarrow> pyval io" where
  "hubspot_search e req w =
     (let w' = w\<lparr>remote_log := remote_log w @ [req]\<rparr>
      in (try_except
            (ex_bind (http e w req) (\<lambda>data. py_get data (ustr ''results'') (PList [])))
            (\<lambda>ex. Inr (PList [])), w'))"

definition search_contacts_by_email :: "env \<Rightarrow> pyval \<Rightarrow> pyval io" where
  "search_contacts_by_email e email =
     (if \<not> truthy email \<or> email = PStr (ustr ''nan'') then io_ret (PList [])
      else hubspot_search e
             (HubSpotSearch (ustr ''contacts'') [(ustr ''email'', ustr ''EQ'', email)] 10))"

definition search_contacts_by_phone :: "env \<Rightarrow> pyval \<Rightarrow> pyval io" where
  "search_contacts_by_phone e phone_e164 =
     (if \<not> truthy phone_e164 then io_ret (PList [])
      else hubspot_search e
             (HubSpotSearch (ustr ''contacts'') [(ustr ''phone'', ustr ''EQ'', phone_e164)] 10))"

definition search_contacts_by_name :: "env \<Rightarrow> pyval \<Rightarrow> pyval \<Rightarrow> pyval io" where
  "search_contacts_by_name e first_name last_name =
     (if \<not> truthy first_name \<and> \<not> truthy last_name then io_ret (PList [])
      else
        (let filters =
               (if truthy first_name
                then [(ustr ''firstname'', ustr ''CONTAINS_TOKEN'', first_name)] else []) @
               (if truthy last_name
                then [(ustr ''lastname'', ustr ''CONTAINS_TOKEN'', last_name)] else [])
         in if filters = [] then io_ret (PList [])
            else hubspot_search e (HubSpotSearch (ustr ''contacts'') filters 20)))"

definition search_deals_by_property_name :: "env \<Rightarrow> pyval \<Rightarrow> pyval \<Rightarrow> pyval io" where
  "search_deals_by_property_name e property_name city =
     (if \<not> truthy property_name then io_ret (PList [])
      else hubspot_search e
             (HubSpotSearch (ustr ''deals'')
                [(ustr ''dealname'', ustr ''CONTAINS_TOKEN'', property_name)] 20))"

text \<open>\<open>property_name.replace("'", "\\'")\<close>: a backslash before every single quote.\<close>

definition escape_quotes :: "ustring \<Rightarrow> ustring" where
  "escape_quotes s = concat (map (\<lambda>c. if c = 39 then [92, 39] else [c]) s)"

text \<open>
  \<open>AirtableClient.search_properties\<close>, for the client of base \<open>base_id\<close>.  The \<open>replace\<close>
  is inside the \<open>try\<close> block: a property name that is not a string gives \<open>[]\<close> before
  any request is made.
\<close>

definition search_properties :: "env \<Rightarrow> ustring \<Rightarrow> pyval \<Rightarrow> pyval \<Rightarrow> pyval io" where
  "search_properties e base_id property_name city w =
     (if \<not> truthy property_name then (Inr (PList []), w)
      else
        (case property_name of
           PStr name \<Rightarrow>
             (let req = AirtableSearch base_id (escape_quotes name) 20;
                  w' = w\<lparr>remote_log := remote_log w @ [req]\<rparr>
              in (try_except
                    (ex_bind (http e w req) (\<lambda>data. py_get data (ustr ''records'') (PList [])))
                    (\<lambda>ex. Inr (PList [])), w'))
         | _ \<Rightarrow> (Inr (PList []), w)))"

text \<open>
  Formatting a value inside an f-string: a string is itself, the text of any other value
  is left to \<open>str_format\<close>.
\<close>

definition py_str :: "env \<Rightarrow> pyval \<Rightarrow> ustring" where
  "py_str e v = (case v of PStr s \<Rightarrow> s | _ \<Rightarrow> str_format e v)"

section \<open>Matching cascade\<close>

subsection \<open>Contact category\<close>

text \<open>
  The two scores of one candidate of the name search: each part is scored only when the
  lead's part and the candidate's part are both non-empty, and is 0 otherwise.
\<close>

definition name_scores :: "env \<Rightarrow> pyval \<Rightarrow> pyval \<Rightarrow> pyval \<Rightarrow> exn + rat \<times> rat" where
  "name_scores e first_name last_name contact =
     ex_bind (py_get contact (ustr ''properties'') (PDict [])) (\<lambda>props1.
     ex_bind (py_get props1 (ustr ''firstname'') (PStr [])) (\<lambda>contact_first.
     ex_bind (py_get contact (ustr ''properties'') (PDict [])) (\<lambda>props2.
     ex_bind (py_get props2 (ustr ''lastname'') (PStr [])) (\<lambda>contact_last.
     Inr (if truthy first_name \<and> truthy contact_first
          then fuzz_ratio e (normalize_text e first_name) (normalize_text e contact_first)
          else 0,
          if truthy last_name \<and> truthy contact_last
          then fuzz_ratio e (normalize_text e last_name) (normalize_text e contact_last)
          else 0)))))"

text \<open>
  The \<open>for\<close> loop over the candidates of the name search, left by \<open>break\<close> at the first
  candidate one of whose scores reaches 80.
\<close>

fun name_loop :: "env \<Rightarrow> pyval \<Rightarrow> pyval \<Rightarrow> pyval list \<Rightarrow> exn + pyval option" where
  "name_loop e first_name last_name [] = Inr None"
| "name_loop e first_name last_name (contact # rest) =
     (case name_scores e first_name last_name contact of
        Inl ex \<Rightarrow> Inl ex
      | Inr (first_score, last_score) \<Rightarrow>
          if first_score \<ge> 80 \<or> last_score \<ge> 80 then Inr (Some contact)
          else name_loop e first_name last_name rest)"

text \<open>The result dictionary of a contact match (the last \<open>if\<close> of the function).\<close>

definition contact_found :: "env \<Rightarrow> pyval \<Rightarrow> pyval \<Rightarrow> exn + pymap" where
  "contact_found e contact_results match_type =
     ex_bind (py_first contact_results) (\<lambda>contact.
     ex_bind (py_get contact (ustr ''properties'') (PDict [])) (\<lambda>props.
     ex_bind (py_get contact (ustr ''id'') PNone) (\<lambda>contact_id.
     ex_bind (py_get props (ustr ''email'') (PStr [])) (\<lambda>contact_email.
     ex_bind (py_get props (ustr ''phone'') (PStr [])) (\<lambda>contact_phone.
     ex_bind (py_get props (ustr ''firstname'') (PStr [])) (\<lambda>firstname.
     ex_bind (py_get props (ustr ''lastname'') (PStr [])) (\<lambda>lastname.
     Inr [ustr ''found'' \<mapsto> PBool True,
          ustr ''contact_id'' \<mapsto> contact_id,
          ustr ''contact_email'' \<mapsto> contact_email,
          ustr ''contact_phone'' \<mapsto> contact_phone,
          ustr ''contact_name'' \<mapsto>
            PStr (strip (py_str e firstname @ [32] @ py_str e lastname)),
          ustr ''match_type'' \<mapsto> match_type])))))))"

definition truthy_opt :: "ustring option \<Rightarrow> bool" where
  "truthy_opt p = (case p of None \<Rightarrow> False | Some s \<Rightarrow> s \<noteq> [])"

definition opt_val :: "ustring option \<Rightarrow> pyval" where
  "opt_val p = (case p of None \<Rightarrow> PNone | Some s \<Rightarrow> PStr s)"

definition check_contact_duplicates :: "env \<Rightarrow> pydict \<Rightarrow> pymap io" where
  "check_contact_duplicates e lead =
     (let email = dict_get lead (ustr ''email'') (PStr []);
          phone = dict_get lead (ustr ''phone'') (PStr []);
          first_name = dict_get lead (ustr ''first_name'') (PStr []);
          last_name = dict_get lead (ustr ''last_name'') (PStr [])
      in
      io_bind (io_lift (normalize_phone e phone (dict_get lead (ustr ''country'') (PStr []))))
        (\<lambda>phone_e164.
      io_bind (search_contacts_by_email e email) (\<lambda>email_results.
      io_bind
        (if truthy email_results then io_ret (email_results, PStr (ustr ''email''))
         else if truthy_opt phone_e164 then
           io_bind (search_contacts_by_phone e (opt_val phone_e164)) (\<lambda>phone_results.
             io_ret (phone_results,
                     if truthy phone_results then PStr (ustr ''phone'') else PNone))
         else io_ret (email_results, PNone))
        (\<lambda>(contact_results, match_type).
      io_bind
        (if \<not> truthy contact_results \<and> (truthy first_name \<or> truthy last_name) then
           io_bind (search_contacts_by_name e first_name last_name) (\<lambda>name_results.
             if truthy name_results then
               io_lift
                 (ex_bind (py_iter name_results) (\<lambda>candidates.
                  ex_bind (name_loop e first_name last_name candidates) (\<lambda>hit.
                  case hit of
                    None \<Rightarrow> Inr (contact_results, match_type)
                  | Some contact \<Rightarrow> Inr (PList [contact], PStr (ustr ''name'')))))
             else io_ret (contact_results, match_type))
         else io_ret (contact_results, match_type))
        (\<lambda>(contact_results, match_type).
      if truthy contact_results
      then io_lift (contact_found e contact_results match_type)
      else io_ret [ustr ''found'' \<mapsto> PBool False])))))"

subsection \<open>Deal and directory categories\<close>

text \<open>
  The \<open>for\<close> loop of \<open>check_deal_duplicates\<close> and of \<open>check_alohacamp_duplicates\<close>, which
  differ in the keys they read only: \<open>properties\<close>/\<open>dealname\<close> for a deal,
  \<open>fields\<close>/\<open>Name\<close> for a directory record.  The accumulator is
  \<open>(best_match, best_score)\<close>, initially \<open>(None, 0)\<close>.
\<close>

definition property_score :: "env \<Rightarrow> ustring \<Rightarrow> ustring \<Rightarrow> rat" where
  "property_score e property_norm cand_norm =
     max (fuzz_token_set_ratio e property_norm cand_norm)
         (fuzz_partial_token_sort_ratio e property_norm cand_norm)"

definition candidate_name :: "ustring \<Rightarrow> ustring \<Rightarrow> pyval \<Rightarrow> exn + pyval" where
  "candidate_name outer inner cand =
     ex_bind (py_get cand outer (PDict [])) (\<lambda>props. py_get props inner (PStr []))"

fun best_loop ::
  "env \<Rightarrow> ustring \<Rightarrow> ustring \<Rightarrow> ustring \<Rightarrow> pyval list \<Rightarrow> pyval \<times> rat \<Rightarrow> exn + pyval \<times> rat"
where
  "best_loop e outer inner property_norm [] acc = Inr acc"
| "best_loop e outer inner property_norm (cand # rest) (best_match, best_score) =
     (case candidate_name outer inner cand of
        Inl ex \<Rightarrow> Inl ex
      | Inr name \<Rightarrow>
          (let score = property_score e property_norm (normalize_text e name)
           in if score > best_score
              then best_loop e outer inner property_norm rest (cand, score)
              else best_loop e outer inner property_norm rest (best_match, best_score)))"

definition deal_found :: "pyval \<Rightarrow> rat \<Rightarrow> exn + pymap" where
  "deal_found best_match best_score =
     ex_bind (py_get best_match (ustr ''properties'') (PDict [])) (\<lambda>props.
     ex_bind (py_get best_match (ustr ''id'') PNone) (\<lambda>deal_id.
     ex_bind (py_get props (ustr ''dealname'') (PStr [])) (\<lambda>deal_name.
     Inr [ustr ''found'' \<mapsto> PBool True,
          ustr ''deal_id'' \<mapsto> deal_id,
          ustr ''deal_name'' \<mapsto> deal_name,
          ustr ''deal_score'' \<mapsto> PFloat best_score])))"

definition check_deal_duplicates :: "env \<Rightarrow> pydict \<Rightarrow> pymap io" where
  "check_deal_duplicates e lead =
     (let property_name = dict_get lead (ustr ''property_name'') (PStr []);
          city = dict_get lead (ustr ''address_city_from_lead'') (PStr [])
      in
      if \<not> truthy property_name then io_ret [ustr ''found'' \<mapsto> PBool False]
      else
        io_bind (search_deals_by_property_name e property_name city) (\<lambda>deal_results.
        if truthy deal_results then
          io_lift
            (ex_bind (py_iter deal_results) (\<lambda>deals.
             ex_bind (best_loop e (ustr ''properties'') (ustr ''dealname'')
                        (normalize_text e property_name) deals (PNone, 0))
               (\<lambda>(best_match, best_score).
             if truthy best_match \<and> best_score \<ge> 70
             then deal_found best_match best_score
             else Inr [ustr ''found'' \<mapsto> PBool False])))
        else io_ret [ustr ''found'' \<mapsto> PBool False]))"

definition alohacamp_found :: "pyval \<Rightarrow> rat \<Rightarrow> exn + pymap" where
  "alohacamp_found best_match best_score =
     ex_bind (py_get best_match (ustr ''fields'') (PDict [])) (\<lambda>fields.
     ex_bind (py_get best_match (ustr ''id'') PNone) (\<lambda>match_id.
     ex_bind (py_get fields (ustr ''Property Name'') (PStr [])) (\<lambda>match_name.
     Inr [ustr ''found'' \<mapsto> PBool True,
          ustr ''match_id'' \<mapsto> match_id,
          ustr ''match_name'' \<mapsto> match_name,
          ustr ''score'' \<mapsto> PFloat best_score])))"

text \<open>\<open>airtable e\<close> is \<open>self.airtable\<close>: the base of the directory client, if there is one.\<close>

definition check_alohacamp_duplicates :: "env \<Rightarrow> pydict \<Rightarrow> pymap io" where
  "check_alohacamp_duplicates e lead =
     (case airtable e of
        None \<Rightarrow> io_ret [ustr ''found'' \<mapsto> PBool False]
      | Some base_id \<Rightarrow>
          (let property_name = dict_get lead (ustr ''property_name'') (PStr []);
               city = dict_get lead (ustr ''address_city_from_lead'') (PStr [])
           in
           if \<not> truthy property_name then io_ret [ustr ''found'' \<mapsto> PBool False]
           else
             io_bind (search_properties e base_id property_name city) (\<lambda>airtable_results.
             if truthy airtable_results then
               io_lift
                 (ex_bind (py_iter airtable_results) (\<lambda>records.
                  ex_bind (best_loop e (ustr ''fields'') (ustr ''Name'')
                             (normalize_text e property_name) records (PNone, 0))
                    (\<lambda>(best_match, best_score).
                  if truthy best_match \<and> best_score \<ge> 70
                  then alohacamp_found best_match best_score
                  else Inr [ustr ''found'' \<mapsto> PBool False])))
             else io_ret [ustr ''found'' \<mapsto> PBool False])))"

section \<open>Decision aggregator\<close>

text \<open>The \<open>if\<close>/\<open>elif\<close> chain of \<open>process_lead\<close>: status, follow-up flag and reason.\<close>

definition overall_status :: "pymap \<Rightarrow> pymap \<Rightarrow> pymap \<Rightarrow> exn + ustring \<times> bool \<times> ustring" where
  "overall_status contact_check deal_check alohacamp_check =
     ex_bind (map_index contact_check (ustr ''found'')) (\<lambda>contact_hit.
     if truthy contact_hit
     then Inr (ustr ''duplicate'', True, ustr ''contact_duplicate'')
     else
       ex_bind (map_index deal_check (ustr ''found'')) (\<lambda>deal_hit.
       if truthy deal_hit
       then Inr (ustr ''duplicate'', False, ustr ''deal_exists'')
       else
         ex_bind (map_index alohacamp_check (ustr ''found'')) (\<lambda>alohacamp_hit.
         if truthy alohacamp_hit
         then Inr (ustr ''duplicate'', False, ustr ''alohacamp_exists'')
         else Inr (ustr ''unique'', True, ustr ''new_lead''))))"

text \<open>The three blocks that add the linkage fields to the update record.\<close>

definition add_linkage :: "pymap \<Rightarrow> pymap \<Rightarrow> pymap \<Rightarrow> pymap \<Rightarrow> exn + pymap" where
  "add_linkage update_data contact_check deal_check alohacamp_check =
     ex_bind (map_index contact_check (ustr ''found'')) (\<lambda>contact_hit.
     let update_data =
           (if truthy contact_hit then
              update_data ++
                [ustr ''hubspot_contact_id_2'' \<mapsto> map_get contact_check (ustr ''contact_id''),
                 ustr ''hubspot_contact_email_2'' \<mapsto>
                   map_get contact_check (ustr ''contact_email''),
                 ustr ''hubspot_contact_phone_2'' \<mapsto>
                   map_get contact_check (ustr ''contact_phone''),
                 ustr ''hubspot_contact_name_2'' \<mapsto>
                   map_get contact_check (ustr ''contact_name''),
                 ustr ''hubspot_contact_match_type_2'' \<mapsto>
                   map_get contact_check (ustr ''match_type'')]
            else update_data)
     in
     ex_bind (map_index deal_check (ustr ''found'')) (\<lambda>deal_hit.
     let update_data =
           (if truthy deal_hit then
              update_data ++
                [ustr ''hubspot_deal_id_2'' \<mapsto> map_get deal_check (ustr ''deal_id''),
                 ustr ''hubspot_deal_name_2'' \<mapsto> map_get deal_check (ustr ''deal_name''),
                 ustr ''hubspot_deal_score_2'' \<mapsto> map_get deal_check (ustr ''deal_score'')]
            else update_data)
     in
     ex_bind (map_index alohacamp_check (ustr ''found'')) (\<lambda>alohacamp_hit.
     if truthy alohacamp_hit then
       Inr (update_data ++
              [ustr ''alohacamp_exists_2'' \<mapsto> PBool True,
               ustr ''alohacamp_match_id_2'' \<mapsto> map_get alohacamp_check (ustr ''match_id''),
               ustr ''alohacamp_match_name_2'' \<mapsto>
                 map_get alohacamp_check (ustr ''match_name''),
               ustr ''alohacamp_score_2'' \<mapsto> map_get alohacamp_check (ustr ''score'')])
     else Inr (update_data(ustr ''alohacamp_exists_2'' \<mapsto> PBool False)))))"

definition process_lead :: "env \<Rightarrow> pydict \<Rightarrow> pymap io" where
  "process_lead e lead =
     io_bind (check_contact_duplicates e lead) (\<lambda>contact_check.
     io_bind (check_deal_duplicates e lead) (\<lambda>deal_check.
     io_bind (check_alohacamp_duplicates e lead) (\<lambda>alohacamp_check.
     io_bind (io_lift (overall_status contact_check deal_check alohacamp_check))
       (\<lambda>(status, needs_deal, reason).
     io_bind (\<lambda>w. (Inr (now_isoformat e w), w)) (\<lambda>now.
     io_lift
       (add_linkage
          [ustr ''hubspot_duplicate_check_2'' \<mapsto> PStr status,
           ustr ''hubspot_checked_at_2'' \<mapsto> PStr now,
           ustr ''needs_hubspot_deal'' \<mapsto> PBool needs_deal,
           ustr ''deal_creation_reason'' \<mapsto> PStr reason]
          contact_check deal_check alohacamp_check))))))"

section \<open>Batch driver\<close>

text \<open>\<open>xs[:n]\<close>\<close>

definition py_prefix :: "int \<Rightarrow> 'a list \<Rightarrow> 'a list" where
  "py_prefix n xs =
     (if n \<ge> 0 then take (nat n) xs else take (length xs - nat (- n)) xs)"

definition eligible :: "pydict \<Rightarrow> bool" where
  "eligible lead \<longleftrightarrow>
     dict_get lead (ustr ''zerobounce_status'') PNone = PStr (ustr ''valid'') \<and>
     dict_get lead (ustr ''hubspot_duplicate_check_2'') PNone = PNone \<and>
     truthy (dict_get lead (ustr ''email'') PNone)"

text \<open>
  \<open>fetch_leads_batch\<close>.  The query is built before the \<open>try\<close> block (\<open>table\<close>, \<open>select\<close>,
  \<open>gte\<close> when a start is given, \<open>order\<close>, \<open>limit\<close>): \<open>store_query\<close> tells whether the
  client can build it, and an exception there leaves the function.  Inside the block
  are the execution of the query and the filter; an exception there gives \<open>[]\<close>.
\<close>

definition fetch_leads_batch :: "env \<Rightarrow> int \<Rightarrow> pyval \<Rightarrow> pydict list io" where
  "fetch_leads_batch e batch_size start_id w =
     (let lower_bound = (if truthy start_id then Some start_id else None);
          limit = batch_size * 10
      in case store_query e lower_bound limit of
           Inl ex \<Rightarrow> (Inl ex, w)
         | Inr query \<Rightarrow>
             (let w' = w\<lparr>store_log := store_log w @ [StoreSelect lower_bound limit]\<rparr>
              in (try_except
                    (ex_bind (store_select e w lower_bound limit) (\<lambda>all_leads.
                     Inr (py_prefix batch_size (filter eligible all_leads))))
                    (\<lambda>ex. Inr []), w')))"

definition dict_index :: "pydict \<Rightarrow> ustring \<Rightarrow> exn + pyval" where
  "dict_index d k = (case map_of d k of None \<Rightarrow> Inl KeyError | Some v \<Rightarrow> Inr v)"

text \<open>The update of one row of the store; its value is \<open>result.data\<close>.\<close>

definition supabase_update :: "env \<Rightarrow> pyval \<Rightarrow> pymap \<Rightarrow> pyval io" where
  "supabase_update e lead_id update_data w =
     (store_update e w lead_id update_data,
      w\<lparr>store_log := store_log w @ [StoreUpdate lead_id update_data]\<rparr>)"

text \<open>
  The body of the \<open>try\<close> block of the loop of \<open>process_batch\<close>; its value tells whether
  \<open>updated_count\<close> was incremented.  The log lines and the pause are left out.
\<close>

definition process_batch_try :: "env \<Rightarrow> pydict \<Rightarrow> bool io" where
  "process_batch_try e lead =
     io_bind (process_lead e lead) (\<lambda>update_data.
     io_bind (io_lift (dict_index lead (ustr ''id''))) (\<lambda>lead_id.
     io_bind (supabase_update e lead_id update_data) (\<lambda>data.
     io_ret (truthy data))))"

fun batch_loop :: "env \<Rightarrow> pydict list \<Rightarrow> nat \<times> nat \<Rightarrow> world \<Rightarrow> (nat \<times> nat) \<times> world" where
  "batch_loop e [] acc w = (acc, w)"
| "batch_loop e (lead # rest) (updated_count, errors) w =
     (case process_batch_try e lead w of
        (Inr updated, w') \<Rightarrow>
          batch_loop e rest (if updated then updated_count + 1 else updated_count, errors) w'
      | (Inl ex, w') \<Rightarrow> batch_loop e rest (updated_count, errors + 1) w')"

definition process_batch :: "env \<Rightarrow> int \<Rightarrow> pyval \<Rightarrow> pymap io" where
  "process_batch e batch_size start_id =
     io_bind (fetch_leads_batch e batch_size start_id) (\<lambda>leads.
     if leads = [] then io_ret [ustr ''error'' \<mapsto> PStr (ustr ''No leads found to process'')]
     else (\<lambda>w.
       (case batch_loop e leads (0, 0) w of
          ((updated_count, errors), w') \<Rightarrow>
            (Inr [ustr ''leads_processed'' \<mapsto> PInt (int (length leads)),
                  ustr ''updated_count'' \<mapsto> PInt (int updated_count),
                  ustr ''errors'' \<mapsto> PInt (int errors)], w'))))"

section \<open>Reading the results\<close>

text \<open>
  What the statements below read off a match result and off the update record.
\<close>

fun is_str :: "pyval \<Rightarrow> bool" where
  "is_str (PStr s) = True"
| "is_str _ = False"

definition is_found :: "pymap \<Rightarrow> bool" where
  "is_found m \<longleftrightarrow> m (ustr ''found'') = Some (PBool True)"

definition has_found_flag :: "pymap \<Rightarrow> bool" where
  "has_found_flag m \<longleftrightarrow> (\<exists>b. m (ustr ''found'') = Some (PBool b))"

definition verdict_of :: "pymap \<Rightarrow> pyval option \<times> pyval option \<times> pyval option" where
  "verdict_of u =
     (u (ustr ''hubspot_duplicate_check_2''), u (ustr ''deal_creation_reason''),
      u (ustr ''needs_hubspot_deal''))"

definition verdict :: "string \<Rightarrow> string \<Rightarrow> bool \<Rightarrow> pyval option \<times> pyval option \<times> pyval option" where
  "verdict status reason follow_up =
     (Some (PStr (ustr status)), Some (PStr (ustr reason)), Some (PBool follow_up))"

definition priority_verdict :: "bool \<Rightarrow> bool \<Rightarrow> bool \<Rightarrow> pyval option \<times> pyval option \<times> pyval option" where
  "priority_verdict contact deal directory =
     (if contact then verdict ''duplicate'' ''contact_duplicate'' True
      else if deal then verdict ''duplicate'' ''deal_exists'' False
      else if directory then verdict ''duplicate'' ''alohacamp_exists'' False
      else verdict ''unique'' ''new_lead'' True)"

text \<open>A computation that makes no store operation: it leaves the store log as it is.\<close>

definition keeps_store :: "'a io \<Rightarrow> bool" where
  "keeps_store m \<longleftrightarrow> (\<forall>w. store_log (snd (m w)) = store_log w)"

text \<open>The linkage fields each category contributes.\<close>

definition contact_linkage :: "pymap \<Rightarrow> pymap" where
  "contact_linkage c =
     [ustr ''hubspot_contact_id_2'' \<mapsto> map_get c (ustr ''contact_id''),
      ustr ''hubspot_contact_email_2'' \<mapsto> map_get c (ustr ''contact_email''),
      ustr ''hubspot_contact_phone_2'' \<mapsto> map_get c (ustr ''contact_phone''),
      ustr ''hubspot_contact_name_2'' \<mapsto> map_get c (ustr ''contact_name''),
      ustr ''hubspot_contact_match_type_2'' \<mapsto> map_get c (ustr ''match_type'')]"

definition deal_linkage :: "pymap \<Rightarrow> pymap" where
  "deal_linkage d =
     [ustr ''hubspot_deal_id_2'' \<mapsto> map_get d (ustr ''deal_id''),
      ustr ''hubspot_deal_name_2'' \<mapsto> map_get d (ustr ''deal_name''),
      ustr ''hubspot_deal_score_2'' \<mapsto> map_get d (ustr ''deal_score'')]"

definition directory_linkage :: "pymap \<Rightarrow> pymap" where
  "directory_linkage a =
     [ustr ''alohacamp_match_id_2'' \<mapsto> map_get a (ustr ''match_id''),
      ustr ''alohacamp_match_name_2'' \<mapsto> map_get a (ustr ''match_name''),
      ustr ''alohacamp_score_2'' \<mapsto> map_get a (ustr ''score'')]"

text \<open>
  A candidate as the search services deliver it: a non-empty object whose \<open>properties\<close>
  (or \<open>fields\<close>) entry, if there is one, is an object.  One of its fields, its
  identifier, and the score of a deal or directory candidate against the lead's property
  name.
\<close>

definition well_formed_candidate :: "ustring \<Rightarrow> pyval \<Rightarrow> bool" where
  "well_formed_candidate outer cand =
     (case cand of
        PDict kvs \<Rightarrow>
          kvs \<noteq> [] \<and> (case dict_get kvs outer (PDict []) of PDict ps \<Rightarrow> True | _ \<Rightarrow> False)
      | _ \<Rightarrow> False)"

definition cand_field :: "ustring \<Rightarrow> ustring \<Rightarrow> pyval \<Rightarrow> pyval" where
  "cand_field outer inner cand =
     (case cand of
        PDict kvs \<Rightarrow>
          (case dict_get kvs outer (PDict []) of
             PDict ps \<Rightarrow> dict_get ps inner (PStr [])
           | _ \<Rightarrow> PNone)
      | _ \<Rightarrow> PNone)"

definition cand_id :: "pyval \<Rightarrow> pyval" where
  "cand_id cand = (case cand of PDict kvs \<Rightarrow> dict_get kvs (ustr ''id'') PNone | _ \<Rightarrow> PNone)"

definition cand_score :: "env \<Rightarrow> ustring \<Rightarrow> ustring \<Rightarrow> pyval \<Rightarrow> pyval \<Rightarrow> rat" where
  "cand_score e outer inner property_name cand =
     property_score e (normalize_text e property_name)
       (normalize_text e (cand_field outer inner cand))"

text \<open>
  \<open>c\<close> is the first candidate of the list with the highest score: every earlier one
  scores strictly less, no later one scores more.
\<close>

definition first_best :: "('a \<Rightarrow> rat) \<Rightarrow> 'a list \<Rightarrow> 'a \<Rightarrow> bool" where
  "first_best score cands c \<longleftrightarrow>
     (\<exists>pre post. cands = pre @ c # post \<and>
        (\<forall>x\<in>set pre. score x < score c) \<and> (\<forall>x\<in>set post. score x \<le> score c))"

text \<open>
  The outcomes of the leads of a batch, one per lead in order: what the \<open>try\<close> block of
  the loop gives for the lead in the world the leads before it have left.  The two
  counters of the summary count the successful updates and the exceptions among them.
\<close>

fun outcomes :: "env \<Rightarrow> pydict list \<Rightarrow> world \<Rightarrow> (exn + bool) list" where
  "outcomes e [] w = []"
| "outcomes e (lead # rest) w =
     (case process_batch_try e lead w of (r, w') \<Rightarrow> r # outcomes e rest w')"

definition count_updated :: "(exn + bool) list \<Rightarrow> nat" where
  "count_updated rs = length (filter (\<lambda>r. r = Inr True) rs)"

definition count_errors :: "(exn + bool) list \<Rightarrow> nat" where
  "count_errors rs = length (filter (\<lambda>r. case r of Inl ex \<Rightarrow> True | Inr b \<Rightarrow> False) rs)"

text \<open>
  The three requests of the contact category, the score of one name part (computed only
  when both sides are non-empty, 0 otherwise) and the acceptance test of the name step.
\<close>

definition email_request :: "pyval \<Rightarrow> request" where
  "email_request email =
     HubSpotSearch (ustr ''contacts'') [(ustr ''email'', ustr ''EQ'', email)] 10"

definition phone_request :: "ustring option \<Rightarrow> request" where
  "phone_request phone_e164 =
     HubSpotSearch (ustr ''contacts'') [(ustr ''phone'', ustr ''EQ'', opt_val phone_e164)] 10"

definition name_request :: "pyval \<Rightarrow> pyval \<Rightarrow> request" where
  "name_request first_name last_name =
     HubSpotSearch (ustr ''contacts'')
       ((if truthy first_name
         then [(ustr ''firstname'', ustr ''CONTAINS_TOKEN'', first_name)] else []) @
        (if truthy last_name
         then [(ustr ''lastname'', ustr ''CONTAINS_TOKEN'', last_name)] else []))
       20"

definition part_score :: "env \<Rightarrow> pyval \<Rightarrow> pyval \<Rightarrow> rat" where
  "part_score e lead_part contact_part =
     (if truthy lead_part \<and> truthy contact_part
      then fuzz_ratio e (normalize_text e lead_part) (normalize_text e contact_part)
      else 0)"

definition name_accepts :: "env \<Rightarrow> pyval \<Rightarrow> pyval \<Rightarrow> pyval \<Rightarrow> bool" where
  "name_accepts e first_name last_name cand \<longleftrightarrow>
     part_score e first_name (cand_field (ustr ''properties'') (ustr ''firstname'') cand) \<ge> 80 \<or>
     part_score e last_name (cand_field (ustr ''properties'') (ustr ''lastname'') cand) \<ge> 80"

definition is_email_lookup :: "request \<Rightarrow> bool" where
  "is_email_lookup req =
     (case req of
        HubSpotSearch object filters limit \<Rightarrow>
          object = ustr ''contacts'' \<and> map fst filters = [ustr ''email'']
      | AirtableSearch base_id name limit \<Rightarrow> False)"

section \<open>A concrete environment\<close>

text \<open>
  An environment to run the model in: the Unicode tables restricted to ASCII, scorers
  that tell equal from different, a parser that accepts nothing, remote services that
  find nothing and a store that is empty.  The examples below change single fields.
\<close>

definition ascii_lower :: "ustring \<Rightarrow> ustring" where
  "ascii_lower = map (\<lambda>c. if 65 \<le> c \<and> c \<le> 90 then c + 32 else c)"

definition ascii_upper :: "ustring \<Rightarrow> ustring" where
  "ascii_upper = map (\<lambda>c. if 97 \<le> c \<and> c \<le> 122 then c - 32 else c)"

definition exact_ratio :: "ustring \<Rightarrow> ustring \<Rightarrow> rat" where
  "exact_ratio a b = (if a = b then 100 else 0)"

definition base_env :: env where
  "base_env =
     \<lparr> str_lower = ascii_lower,
       str_upper = ascii_upper,
       str_format = (\<lambda>v. []),
       nfkd = (\<lambda>s. s),
       combining = (\<lambda>c. 0),
       fuzz_ratio = exact_ratio,
       fuzz_token_set_ratio = exact_ratio,
       fuzz_partial_token_sort_ratio = exact_ratio,
       pn_parse = (\<lambda>raw dflt. Inl (RemoteError 0)),
       pn_is_possible_number = (\<lambda>n. Inr True),
       pn_is_valid_number = (\<lambda>n. Inr True),
       pn_format_e164 = (\<lambda>n. Inl (RemoteError 0)),
       http = (\<lambda>w req. Inr (PDict [])),
       store_query = (\<lambda>lower_bound limit. Inr ()),
       store_select = (\<lambda>w lower_bound limit. Inr []),
       store_update = (\<lambda>w lead_id update_data. Inr (PList [])),
       airtable = None,
       now_isoformat = (\<lambda>w. []) \<rparr>"

text \<open>A parser that knows one number, written with spaces, of the region \<open>PL\<close>.\<close>

definition phone_env :: env where
  "phone_env =
     base_env
       \<lparr> pn_parse :=
           (\<lambda>raw dflt. if raw = ustr ''600 100 200'' \<and> dflt = Some (ustr ''PL'')
                       then Inr (PhoneNumber 48 600100200) else Inl (RemoteError 1)),
         pn_format_e164 := (\<lambda>n. Inr (ustr ''+48600100200'')) \<rparr>"

text \<open>
  A CRM that answers every contact search with one contact and every deal search with
  one deal, and a directory without records.
\<close>

definition contact_a :: pyval where
  "contact_a =
     PDict [(ustr ''id'', PStr (ustr ''101'')),
            (ustr ''properties'',
             PDict [(ustr ''email'', PStr (ustr ''a@x.com'')),
                    (ustr ''firstname'', PStr (ustr ''Ann'')),
                    (ustr ''lastname'', PStr (ustr ''Lee''))])]"

definition deal_a :: pyval where
  "deal_a =
     PDict [(ustr ''id'', PStr (ustr ''501'')),
            (ustr ''properties'', PDict [(ustr ''dealname'', PStr (ustr ''Seaside Villa''))])]"

definition crm_http :: "world \<Rightarrow> request \<Rightarrow> exn + pyval" where
  "crm_http w req =
     (case req of
        HubSpotSearch object filters limit \<Rightarrow>
          if object = ustr ''contacts''
          then Inr (PDict [(ustr ''results'', PList [contact_a])])
          else Inr (PDict [(ustr ''results'', PList [deal_a])])
      | AirtableSearch base_id name limit \<Rightarrow> Inr (PDict [(ustr ''records'', PList [])]))"

definition crm_env :: env where
  "crm_env = base_env \<lparr> http := crm_http \<rparr>"

text \<open>The same CRM with a store that returns the row it has updated.\<close>

definition crm_store_env :: env where
  "crm_store_env =
     crm_env
       \<lparr> store_update :=
           (\<lambda>w lead_id update_data. Inr (PList [PDict [(ustr ''id'', lead_id)]])) \<rparr>"

definition lead_a :: pydict where
  "lead_a =
     [(ustr ''id'', PInt 1),
      (ustr ''email'', PStr (ustr ''a@x.com'')),
      (ustr ''property_name'', PStr (ustr ''Seaside Villa''))]"

definition directory_env :: env where
  "directory_env = crm_env \<lparr> airtable := Some (ustr ''appBASE'') \<rparr>"

definition lead_b :: pydict where
  "lead_b = [(ustr ''id'', PInt 2), (ustr ''email'', PStr (ustr ''b@x.com''))]"

text \<open>
  Services that answer every contact search, every deal search and every directory
  search with a given list; a CRM that knows the deal only, a directory that knows the
  property only, and a store client that cannot build a query.
\<close>

definition answers :: "pyval list \<Rightarrow> pyval list \<Rightarrow> pyval list \<Rightarrow> world \<Rightarrow> request \<Rightarrow> exn + pyval" where
  "answers contacts deals records w req =
     (case req of
        HubSpotSearch object filters limit \<Rightarrow>
          if object = ustr ''contacts''
          then Inr (PDict [(ustr ''results'', PList contacts)])
          else Inr (PDict [(ustr ''results'', PList deals)])
      | AirtableSearch base_id name limit \<Rightarrow> Inr (PDict [(ustr ''records'', PList records)]))"

definition record_a :: pyval where
  "record_a =
     PDict [(ustr ''id'', PStr (ustr ''rec7'')),
            (ustr ''fields'',
             PDict [(ustr ''Name'', PStr (ustr ''Seaside Villa'')),
                    (ustr ''Property Name'', PStr (ustr ''Seaside Villa''))])]"

definition deal_env :: env where
  "deal_env = base_env \<lparr> http := answers [] [deal_a] [] \<rparr>"

definition aloha_env :: env where
  "aloha_env =
     base_env \<lparr> http := answers [] [] [record_a], airtable := Some (ustr ''appBASE'') \<rparr>"

definition no_store_env :: env where
  "no_store_env = base_env \<lparr> store_query := (\<lambda>lower_bound limit. Inl AttributeError) \<rparr>"

text \<open>
  Scorers with fixed values, a CRM with three deals and a directory with one record.
\<close>

definition sample_ratio :: "ustring \<Rightarrow> ustring \<Rightarrow> rat" where
  "sample_ratio a b =
     (if b = ustr ''seaside villa'' \<or> b = ustr ''seaside villas'' then 70
      else if b = ustr ''sea view'' then 69 else 0)"

definition deal_of :: "string \<Rightarrow> string \<Rightarrow> pyval" where
  "deal_of ident name =
     PDict [(ustr ''id'', PStr (ustr ident)),
            (ustr ''properties'', PDict [(ustr ''dealname'', PStr (ustr name))])]"

definition record_of :: "string \<Rightarrow> string \<Rightarrow> pyval" where
  "record_of ident name =
     PDict [(ustr ''id'', PStr (ustr ident)),
            (ustr ''fields'',
             PDict [(ustr ''Name'', PStr (ustr name)),
                    (ustr ''Property Name'', PStr (ustr name))])]"

definition score_deals :: "pyval list" where
  "score_deals =
     [deal_of ''501'' ''Sea View'', deal_of ''502'' ''Seaside Villa'',
      deal_of ''503'' ''Seaside Villas'']"

definition score_records :: "pyval list" where
  "score_records = [record_of ''rec1'' ''Sea View'']"

definition score_http :: "world \<Rightarrow> request \<Rightarrow> exn + pyval" where
  "score_http w req =
     (case req of
        HubSpotSearch object filters limit \<Rightarrow> Inr (PDict [(ustr ''results'', PList score_deals)])
      | AirtableSearch base_id name limit \<Rightarrow> Inr (PDict [(ustr ''records'', PList score_records)]))"

definition score_env :: env where
  "score_env =
     base_env
       \<lparr> fuzz_token_set_ratio := sample_ratio,
         fuzz_partial_token_sort_ratio := (\<lambda>a b. 0),
         http := score_http,
         airtable := Some (ustr ''appBASE'') \<rparr>"

text \<open>A batch of four eligible rows.\<close>

definition row_of :: "int \<Rightarrow> string \<Rightarrow> pydict" where
  "row_of ident email =
     [(ustr ''id'', PInt ident),
      (ustr ''email'', PStr (ustr email)),
      (ustr ''zerobounce_status'', PStr (ustr ''valid'')),
      (ustr ''hubspot_duplicate_check_2'', PNone)]"

definition batch_rows :: "pydict list" where
  "batch_rows =
     [row_of 1 ''a@x.com'', row_of 2 ''b@x.com'', row_of 3 ''bad@x.com'', row_of 4 ''d@x.com'']"

text \<open>
  A CRM whose answer to the search for \<open>bad@x.com\<close> is a list holding a number instead
  of a contact, and a store that fails to write lead 2 and has no row for lead 4.
\<close>

definition batch_http :: "world \<Rightarrow> request \<Rightarrow> exn + pyval" where
  "batch_http w req =
     (if req = HubSpotSearch (ustr ''contacts'')
                 [(ustr ''email'', ustr ''EQ'', PStr (ustr ''bad@x.com''))] 10
      then Inr (PDict [(ustr ''results'', PList [PInt 5])])
      else Inr (PDict [(ustr ''results'', PList [])]))"

definition batch_env :: env where
  "batch_env =
     base_env
       \<lparr> http := batch_http,
         store_select := (\<lambda>w lower_bound limit. Inr batch_rows),
         store_update :=
           (\<lambda>w lead_id update_data.
              if lead_id = PInt 2 then Inl (RemoteError 500)
              else if lead_id = PInt 4 then Inr (PList [])
              else Inr (PList [PDict [(ustr ''id'', lead_id)]])) \<rparr>"

text \<open>
  A CRM whose name search returns three contacts, with scorers that give 79 and 81 for
  the second of them, and two leads: one with a phone number and a name, one whose email
  is the string \<open>nan\<close>.
\<close>

definition name_ratio :: "ustring \<Rightarrow> ustring \<Rightarrow> rat" where
  "name_ratio a b =
     (if a = b then 100
      else if a = ustr ''jon'' \<and> b = ustr ''john'' then 79
      else if a = ustr ''smith'' \<and> b = ustr ''smyth'' then 81
      else 0)"

definition contact_of :: "string \<Rightarrow> string \<Rightarrow> string \<Rightarrow> pyval" where
  "contact_of ident firstname lastname =
     PDict [(ustr ''id'', PStr (ustr ident)),
            (ustr ''properties'',
             PDict [(ustr ''firstname'', PStr (ustr firstname)),
                    (ustr ''lastname'', PStr (ustr lastname))])]"

definition name_cands :: "pyval list" where
  "name_cands =
     [contact_of ''201'' ''Ann'' ''Lee'', contact_of ''202'' ''John'' ''Smyth'',
      contact_of ''203'' ''Jon'' ''Smith'']"

definition name_http :: "world \<Rightarrow> request \<Rightarrow> exn + pyval" where
  "name_http w req =
     (case req of
        HubSpotSearch object filters limit \<Rightarrow>
          if map fst filters = [ustr ''firstname'', ustr ''lastname'']
          then Inr (PDict [(ustr ''results'', PList name_cands)])
          else Inr (PDict [(ustr ''results'', PList [])])
      | AirtableSearch base_id name limit \<Rightarrow> Inr (PDict []))"

definition name_env :: env where
  "name_env = phone_env \<lparr> fuzz_ratio := name_ratio, http := name_http \<rparr>"

definition lead_c :: pydict where
  "lead_c =
     [(ustr ''id'', PInt 3),
      (ustr ''email'', PStr (ustr ''c@x.com'')),
      (ustr ''phone'', PStr (ustr '' 600 100 200  '')),
      (ustr ''country'', PStr (ustr ''pl'')),
      (ustr ''first_name'', PStr (ustr ''Jon'')),
      (ustr ''last_name'', PStr (ustr ''Smith''))]"

definition lead_n :: pydict where
  "lead_n =
     [(ustr ''id'', PInt 5),
      (ustr ''email'', PStr (ustr ''nan'')),
      (ustr ''first_name'', PStr (ustr ''Ann''))]"

definition world0 :: world where
  "world0 = \<lparr> remote_log = [], store_log = [] \<rparr>"


section \<open>Properties of the normalizer\<close>

lemma ustr_inj: "ustr a = ustr b \<longleftrightarrow> a = b"
  by (simp add: ustr_def inj_on_def inj_map_eq_map)

lemma ustr_Nil: "ustr a = [] \<longleftrightarrow> a = []" "[] = ustr a \<longleftrightarrow> a = []"
  by (auto simp add: ustr_def)

lemma plain_space: "is_plain c \<Longrightarrow> is_space c \<longleftrightarrow> c = 32"
  by (auto simp: is_plain_def is_lower_alnum_def is_space_def)

lemma sub_other_chars: "list_all (\<lambda>c. is_lower_alnum c \<or> is_space c) (sub_other s)"
proof -
  have "is_space 32" by (simp add: is_space_def)
  then show ?thesis by (induction s) (auto simp: sub_other_def)
qed

lemma sub_spaces_plain:
  "list_all (\<lambda>c. is_lower_alnum c \<or> is_space c) s \<Longrightarrow> list_all is_plain (sub_spaces s)"
proof (induction s rule: sub_spaces.induct)
  case 1
  then show ?case by simp
next
  case (2 c cs)
  have "list_all (\<lambda>c. is_lower_alnum c \<or> is_space c) (dropWhile is_space cs)"
    using "2.prems" by (auto simp: list_all_iff dest: set_dropWhileD)
  with 2 show ?case by (auto simp: is_plain_def)
qed

lemma sub_spaces_Nil: "sub_spaces s = [] \<longleftrightarrow> s = []"
  by (cases s) auto

lemma hd_sub_spaces: "s \<noteq> [] \<Longrightarrow> \<not> is_space (hd s) \<Longrightarrow> hd (sub_spaces s) = hd s"
  by (cases s) auto

lemma sub_spaces_single: "single_spaced (sub_spaces s)"
proof (induction s rule: sub_spaces.induct)
  case 1
  then show ?case by simp
next
  case (2 c cs)
  show ?case
  proof (cases "is_space c")
    case True
    let ?r = "dropWhile is_space cs"
    show ?thesis
    proof (cases ?r)
      case Nil
      then have "sub_spaces (c # cs) = [32]" using True by (simp only: sub_spaces.simps if_True)
      then show ?thesis by simp
    next
      case (Cons d ds)
      then have nd: "\<not> is_space d" by (metis hd_dropWhile list.sel(1) list.distinct(1))
      then have "d \<noteq> 32" by (auto simp: is_space_def)
      moreover have "single_spaced (sub_spaces ?r)" using 2 True by simp
      ultimately show ?thesis using True Cons nd by simp
    qed
  next
    case False
    then have "c \<noteq> 32" by (auto simp: is_space_def)
    moreover have "single_spaced (sub_spaces cs)" using 2 False by simp
    ultimately show ?thesis using False by (cases "sub_spaces cs") auto
  qed
qed

lemma single_spaced_appendD1: "single_spaced (xs @ ys) \<Longrightarrow> single_spaced xs"
  by (induction xs rule: single_spaced.induct) auto

lemma single_spaced_appendD2: "single_spaced (xs @ ys) \<Longrightarrow> single_spaced ys"
proof (induction xs rule: single_spaced.induct)
  case 1 then show ?case by simp
next
  case (2 c) then show ?case by (cases ys) auto
next
  case (3 c d cs) then show ?case by simp
qed

lemma rev_dropWhile_split: "xs = rev (dropWhile P (rev xs)) @ rev (takeWhile P (rev xs))"
proof -
  have "rev (takeWhile P (rev xs) @ dropWhile P (rev xs)) = rev (rev xs)"
    by (simp only: takeWhile_dropWhile_id)
  then show ?thesis by (simp only: rev_append rev_rev_ident)
qed

lemma strip_split:
  "dropWhile is_space s = strip s @ rev (takeWhile is_space (rev (dropWhile is_space s)))"
  unfolding strip_def by (rule rev_dropWhile_split)

lemma strip_sandwich: "\<exists>pre post. s = pre @ strip s @ post"
proof -
  have "s = takeWhile is_space s @ dropWhile is_space s" by simp
  with strip_split [of s] show ?thesis by metis
qed

lemma strip_last: "strip s \<noteq> [] \<Longrightarrow> \<not> is_space (last (strip s))"
  unfolding strip_def by (simp add: last_rev hd_dropWhile)

lemma strip_hd: "strip s \<noteq> [] \<Longrightarrow> \<not> is_space (hd (strip s))"
proof -
  assume ne: "strip s \<noteq> []"
  let ?d = "dropWhile is_space s"
  note d = strip_split [of s]
  have "?d \<noteq> []"
  proof
    assume "?d = []"
    then have "strip s = rev (dropWhile is_space (rev []))" by (simp only: strip_def)
    then have "strip s = []" by simp
    with ne show False by simp
  qed
  then have "\<not> is_space (hd ?d)" by (rule hd_dropWhile)
  moreover have "hd ?d = hd (strip s)" using d ne by (metis hd_append2)
  ultimately show ?thesis by simp
qed

lemma dropWhile_hd_id: "xs = [] \<or> \<not> P (hd xs) \<Longrightarrow> dropWhile P xs = xs"
  by (cases xs) auto

lemma strip_id:
  assumes "s = [] \<or> (\<not> is_space (hd s) \<and> \<not> is_space (last s))"
  shows "strip s = s"
proof -
  have a: "dropWhile is_space s = s" using assms by (intro dropWhile_hd_id) auto
  have "rev s = [] \<or> \<not> is_space (hd (rev s))" using assms by (auto simp: hd_rev)
  then have "dropWhile is_space (rev s) = rev s" by (rule dropWhile_hd_id)
  with a show ?thesis by (simp add: strip_def)
qed

lemma sub_other_id: "list_all is_plain s \<Longrightarrow> sub_other s = s"
  by (induction s) (auto simp: sub_other_def is_plain_def is_space_def)

lemma sub_spaces_id: "list_all is_plain s \<Longrightarrow> single_spaced s \<Longrightarrow> last s \<noteq> 32 \<Longrightarrow> sub_spaces s = s"
proof (induction s rule: single_spaced.induct)
  case 1 then show ?case by simp
next
  case (2 c) then show ?case by (auto simp: plain_space)
next
  case (3 c d cs)
  then have "is_space d \<longleftrightarrow> d = 32" "is_space c \<longleftrightarrow> c = 32" by (auto simp: plain_space)
  with 3 show ?case by auto
qed

lemma filter_plain: "unicode_fixes_plain e \<Longrightarrow> list_all is_plain s \<Longrightarrow> filter (\<lambda>c. combining e c = 0) s = s"
  by (induction s) (auto simp: unicode_fixes_plain_def)

lemma list_all_strip: "list_all P s \<Longrightarrow> list_all P (strip s)"
  using strip_sandwich [of s] by (metis list_all_append)

lemma single_spaced_strip: "single_spaced s \<Longrightarrow> single_spaced (strip s)"
  using strip_sandwich [of s] by (metis single_spaced_appendD1 single_spaced_appendD2)

lemma normalize_text_normalized: "is_normalized (normalize_text e v)"
proof (cases v)
  case (PStr s0)
  define t where "t = sub_spaces (sub_other (filter (\<lambda>c. combining e c = 0) (nfkd e (str_lower e (strip s0)))))"
  have nt: "normalize_text e v = strip t" by (simp add: normalize_text_def PStr t_def)
  have "list_all is_plain t" unfolding t_def by (rule sub_spaces_plain) (rule sub_other_chars)
  then have a: "list_all is_plain (strip t)" by (rule list_all_strip)
  have "single_spaced t" unfolding t_def by (rule sub_spaces_single)
  then have b: "single_spaced (strip t)" by (rule single_spaced_strip)
  have "is_space 32" by (simp add: is_space_def)
  then have c: "strip t \<noteq> [] \<longrightarrow> hd (strip t) \<noteq> 32 \<and> last (strip t) \<noteq> 32"
    using strip_hd [of t] strip_last [of t] by metis
  show ?thesis unfolding nt is_normalized_def using a b c by simp
qed (simp_all add: normalize_text_def is_normalized_def)

lemma normalize_text_fixes:
  assumes u: "unicode_fixes_plain e" and n: "is_normalized s"
  shows "normalize_text e (PStr s) = s"
proof -
  have pl: "list_all is_plain s" and ss: "single_spaced s" using n by (simp_all add: is_normalized_def)
  have edge: "s = [] \<or> (\<not> is_space (hd s) \<and> \<not> is_space (last s))"
  proof (cases "s = []")
    case False
    then have "is_plain (hd s)" "is_plain (last s)" using pl by (auto simp: list_all_iff)
    moreover have "hd s \<noteq> 32" "last s \<noteq> 32" using n False by (simp_all add: is_normalized_def)
    ultimately show ?thesis by (simp add: plain_space)
  qed simp
  have l32: "last s \<noteq> 32 \<or> s = []" using n by (auto simp: is_normalized_def)
  have s1: "strip s = s" using edge by (rule strip_id)
  have s2: "str_lower e s = s" "nfkd e s = s" using u pl by (simp_all add: unicode_fixes_plain_def)
  have s3: "filter (\<lambda>c. combining e c = 0) s = s" using u pl by (rule filter_plain)
  have s4: "sub_other s = s" using pl by (rule sub_other_id)
  have s5: "sub_spaces s = s" using l32 pl ss by (cases "s = []") (simp_all add: sub_spaces_id)
  show ?thesis by (simp add: normalize_text_def s1 s2 s3 s4 s5)
qed

lemma base_env_fixes_plain: "unicode_fixes_plain base_env"
proof -
  have "list_all is_plain s \<Longrightarrow> ascii_lower s = s" for s
    by (induction s) (auto simp: ascii_lower_def is_plain_def is_lower_alnum_def)
  then show ?thesis by (simp add: unicode_fixes_plain_def base_env_def)
qed

text \<open>
  C5.  \<open>normalize_text\<close> is idempotent: normalizing its own result again changes
  nothing, for every input value; and a value that is not a string is normalized to
  the empty string.  The Unicode tables are only asked to leave the characters
  \<open>a-z\<close>, \<open>0-9\<close> and the space alone, as they do.
\<close>

theorem normalize_text_idempotent:
  assumes "unicode_fixes_plain e"
  shows "normalize_text e (PStr (normalize_text e v)) = normalize_text e v \<and>
         (\<not> is_str v \<longrightarrow> normalize_text e v = [])"
proof
  show "normalize_text e (PStr (normalize_text e v)) = normalize_text e v"
    using assms normalize_text_normalized by (rule normalize_text_fixes)
  show "\<not> is_str v \<longrightarrow> normalize_text e v = []"
    by (cases v) (simp_all add: normalize_text_def)
qed

theorem normalize_text_idempotent_witness:
  "unicode_fixes_plain base_env \<and>
   normalize_text base_env (PStr (ustr ''  Sea-Side  VILLA '')) = ustr ''sea side villa'' \<and>
   normalize_text base_env (PStr (ustr ''sea side villa'')) = ustr ''sea side villa'' \<and>
   \<not> is_str (PInt 7) \<and> normalize_text base_env (PInt 7) = []"
proof -
  have n: "normalize_text base_env (PStr (ustr ''  Sea-Side  VILLA '')) = ustr ''sea side villa''"
    by (simp add: normalize_text_def base_env_def ascii_lower_def ustr_def strip_def
        sub_other_def is_space_def is_lower_alnum_def)
  from normalize_text_idempotent [OF base_env_fixes_plain, of "PStr (ustr ''  Sea-Side  VILLA '')"]
    normalize_text_idempotent [OF base_env_fixes_plain, of "PInt 7"]
  show ?thesis using n base_env_fixes_plain by simp
qed

lemma normalize_phone_try_Some:
  "normalize_phone_try e raw dflt = Inr (Some s) \<longleftrightarrow>
     (\<exists>num. pn_parse e raw dflt = Inr num \<and> pn_is_possible_number e num = Inr True \<and>
            pn_is_valid_number e num = Inr True \<and> pn_format_e164 e num = Inr s)"
  by (auto simp: normalize_phone_try_def ex_bind_def split: sum.splits if_splits)

lemma try_except_None:
  "try_except m (\<lambda>ex. Inr None) = Inr (Some s) \<longleftrightarrow> m = Inr (Some s)"
  by (auto simp: try_except_def split: sum.splits)

lemma try_except_total: "\<exists>r. try_except m (\<lambda>ex. Inr None) = Inr r"
  by (auto simp: try_except_def split: sum.splits)

lemma strip_ex1: "strip (ustr '' 600 100 200  '') = ustr ''600 100 200''"
  by (simp add: strip_def ustr_def is_space_def)
lemma strip_ex2: "strip (ustr ''  '') = []"
  by (simp add: strip_def ustr_def is_space_def)
lemma strip_ex3: "strip (ustr ''pl'') = ustr ''pl''"
  by (simp add: strip_def ustr_def is_space_def)
text \<open>
  C4.  \<open>normalize_phone\<close> never raises.  It returns \<open>None\<close> for a value that is not a
  string, for an empty or blank string, and for a string the parser rejects; for any
  other string it returns a number exactly when the parser accepts the stripped string
  (with the upper-cased country code as default region), the parsed number is possible
  and valid, and then the result is its E.164 format.
\<close>

theorem normalize_phone_absent_or_e164:
  "(\<exists>r. normalize_phone e phone country_code = Inr r) \<and>
   (\<not> is_str phone \<longrightarrow> normalize_phone e phone country_code = Inr None) \<and>
   (\<forall>p. phone = PStr p \<and> strip p = [] \<longrightarrow> normalize_phone e phone country_code = Inr None) \<and>
   (\<forall>p ex. phone = PStr p \<and> pn_parse e (strip p) (default_region e country_code) = Inl ex
       \<longrightarrow> normalize_phone e phone country_code = Inr None) \<and>
   (\<forall>p s. phone = PStr p \<and> strip p \<noteq> [] \<longrightarrow>
       (normalize_phone e phone country_code = Inr (Some s) \<longleftrightarrow>
        (\<exists>num. pn_parse e (strip p) (default_region e country_code) = Inr num \<and>
               pn_is_possible_number e num = Inr True \<and>
               pn_is_valid_number e num = Inr True \<and>
               pn_format_e164 e num = Inr s)))"
proof (intro conjI allI impI)
  show "\<exists>r. normalize_phone e phone country_code = Inr r"
    using try_except_total by (cases phone) (auto simp: normalize_phone_def Let_def)
  show "\<not> is_str phone \<Longrightarrow> normalize_phone e phone country_code = Inr None"
    by (cases phone) (simp_all add: normalize_phone_def)
  show "phone = PStr p \<and> strip p = [] \<Longrightarrow> normalize_phone e phone country_code = Inr None" for p
    by (simp add: normalize_phone_def)
  show "phone = PStr p \<and> pn_parse e (strip p) (default_region e country_code) = Inl ex
       \<Longrightarrow> normalize_phone e phone country_code = Inr None" for p ex
    by (simp add: normalize_phone_def Let_def normalize_phone_try_def ex_bind_def try_except_def)
  show "phone = PStr p \<and> strip p \<noteq> [] \<Longrightarrow>
       (normalize_phone e phone country_code = Inr (Some s) \<longleftrightarrow>
        (\<exists>num. pn_parse e (strip p) (default_region e country_code) = Inr num \<and>
               pn_is_possible_number e num = Inr True \<and>
               pn_is_valid_number e num = Inr True \<and>
               pn_format_e164 e num = Inr s))" for p s
    by (simp add: normalize_phone_def Let_def try_except_None normalize_phone_try_Some)
qed

theorem normalize_phone_absent_or_e164_witness:
  "normalize_phone phone_env (PStr (ustr '' 600 100 200  '')) (PStr (ustr ''pl'')) = Inr (Some (ustr ''+48600100200'')) \<and>
   normalize_phone phone_env (PStr (ustr ''  '')) PNone = Inr None \<and>
   normalize_phone phone_env (PInt 600100200) PNone = Inr None \<and>
   normalize_phone phone_env (PStr (ustr ''not a number'')) PNone = Inr None"
proof -
  have d: "default_region phone_env (PStr (ustr ''pl'')) = Some (ustr ''PL'')"
  proof -
    have "strip (ustr ''pl'') \<noteq> []" by (simp add: strip_ex3 ustr_Nil)
    then show ?thesis
      by (simp add: default_region_def phone_env_def base_env_def ascii_upper_def ustr_def)
  qed
  have p: "pn_parse phone_env (ustr ''600 100 200'') (Some (ustr ''PL'')) = Inr (PhoneNumber 48 600100200)"
    by (simp add: phone_env_def)
  have q: "pn_parse phone_env (strip (ustr ''not a number'')) (default_region phone_env PNone) = Inl (RemoteError 1)"
    by (simp add: phone_env_def default_region_def)
  have r: "pn_is_possible_number phone_env n = Inr True" "pn_is_valid_number phone_env n = Inr True"
    "pn_format_e164 phone_env n = Inr (ustr ''+48600100200'')" for n
    by (simp_all add: phone_env_def base_env_def)
  note t1 = normalize_phone_absent_or_e164 [of phone_env "PStr (ustr '' 600 100 200  '')" "PStr (ustr ''pl'')"]
  note t2 = normalize_phone_absent_or_e164 [of phone_env "PStr (ustr ''  '')" PNone]
  note t3 = normalize_phone_absent_or_e164 [of phone_env "PInt 600100200" PNone]
  note t4 = normalize_phone_absent_or_e164 [of phone_env "PStr (ustr ''not a number'')" PNone]
  have a: "normalize_phone phone_env (PStr (ustr '' 600 100 200  '')) (PStr (ustr ''pl'')) = Inr (Some (ustr ''+48600100200''))"
    using t1 d p r by (simp add: strip_ex1 ustr_Nil)
  have b: "normalize_phone phone_env (PStr (ustr ''  '')) PNone = Inr None"
    using t2 by (simp add: strip_ex2)
  have c: "normalize_phone phone_env (PInt 600100200) PNone = Inr None"
    using t3 by simp
  have dd: "normalize_phone phone_env (PStr (ustr ''not a number'')) PNone = Inr None"
    using t4 q by simp
  show ?thesis using a b c dd by simp
qed

section \<open>Properties of the decision aggregator\<close>

lemma io_bind_ret [simp]: "io_bind (io_ret x) f = f x"
  by (rule ext) (simp add: io_bind_def io_ret_def)

lemma io_bind_Inr: "m w = (Inr x, w') \<Longrightarrow> io_bind m f w = f x w'"
  by (simp add: io_bind_def)

lemma io_bind_Inl: "m w = (Inl ex, w') \<Longrightarrow> io_bind m f w = (Inl ex, w')"
  by (simp add: io_bind_def)

lemma io_bind_lift_Inr: "r = Inr x \<Longrightarrow> io_bind (io_lift r) f w = f x w"
  by (simp add: io_bind_def io_lift_def)

lemma io_bind_lift_Inl: "r = Inl ex \<Longrightarrow> io_bind (io_lift r) f w = (Inl ex, w)"
  by (simp add: io_bind_def io_lift_def)

lemma hubspot_search_result:
  "\<exists>r. hubspot_search e req w = (Inr r, w\<lparr>remote_log := remote_log w @ [req]\<rparr>)"
  by (auto simp: hubspot_search_def Let_def try_except_def split: sum.splits)

lemma io_bind_InrD:
  "io_bind m f w = (Inr y, w') \<Longrightarrow> \<exists>x w1. m w = (Inr x, w1) \<and> f x w1 = (Inr y, w')"
  by (auto simp: io_bind_def split: prod.splits sum.splits)

lemma ex_bind_InrD: "ex_bind m f = Inr y \<Longrightarrow> \<exists>x. m = Inr x \<and> f x = Inr y"
  by (auto simp: ex_bind_def split: sum.splits)

lemma io_lift_InrD: "io_lift r w = (Inr y, w') \<Longrightarrow> r = Inr y \<and> w' = w"
  by (auto simp: io_lift_def)

lemma not_found_flag: "has_found_flag [ustr ''found'' \<mapsto> PBool False]"
  by (auto simp: has_found_flag_def)

lemma contact_found_flag: "contact_found e rs mt = Inr c \<Longrightarrow> has_found_flag c \<and> is_found c"
  unfolding contact_found_def
  by (auto dest!: ex_bind_InrD simp: has_found_flag_def is_found_def ustr_inj)

lemma deal_found_flag: "deal_found bm bs = Inr c \<Longrightarrow> has_found_flag c \<and> is_found c"
  unfolding deal_found_def
  by (auto dest!: ex_bind_InrD simp: has_found_flag_def is_found_def ustr_inj)

lemma alohacamp_found_flag: "alohacamp_found bm bs = Inr c \<Longrightarrow> has_found_flag c \<and> is_found c"
  unfolding alohacamp_found_def
  by (auto dest!: ex_bind_InrD simp: has_found_flag_def is_found_def ustr_inj)

lemma check_contact_flag:
  assumes "check_contact_duplicates e lead w = (Inr c, w')"
  shows "has_found_flag c"
  using assms unfolding check_contact_duplicates_def Let_def
  apply (auto dest!: io_bind_InrD io_lift_InrD split: if_splits simp: io_ret_def not_found_flag contact_found_flag)
  done

lemma check_deal_flag:
  assumes "check_deal_duplicates e lead w = (Inr c, w')"
  shows "has_found_flag c"
  using assms unfolding check_deal_duplicates_def Let_def
  apply (auto dest!: io_bind_InrD io_lift_InrD ex_bind_InrD split: if_splits simp: io_ret_def not_found_flag deal_found_flag)
  done

lemma check_alohacamp_flag:
  assumes "check_alohacamp_duplicates e lead w = (Inr c, w')"
  shows "has_found_flag c"
  using assms unfolding check_alohacamp_duplicates_def Let_def
  apply (auto dest!: io_bind_InrD io_lift_InrD ex_bind_InrD split: if_splits option.splits simp: io_ret_def not_found_flag alohacamp_found_flag)
  done


lemma map_index_found:
  "has_found_flag m \<Longrightarrow> map_index m (ustr ''found'') = Inr (PBool (is_found m))"
  by (auto simp: has_found_flag_def is_found_def map_index_def)

lemma overall_status_eq:
  assumes "has_found_flag c" "has_found_flag d" "has_found_flag a"
  shows "overall_status c d a =
     Inr (if is_found c then (ustr ''duplicate'', True, ustr ''contact_duplicate'')
          else if is_found d then (ustr ''duplicate'', False, ustr ''deal_exists'')
          else if is_found a then (ustr ''duplicate'', False, ustr ''alohacamp_exists'')
          else (ustr ''unique'', True, ustr ''new_lead''))"
  using assms by (simp add: overall_status_def map_index_found ex_bind_def)

lemma add_linkage_eq:
  assumes "has_found_flag c" "has_found_flag d" "has_found_flag a"
  shows "\<exists>u. add_linkage u0 c d a = Inr u \<and>
     (\<forall>k. k \<notin> dom (contact_linkage c) \<union> dom (deal_linkage d) \<union> dom (directory_linkage a)
           \<union> {ustr ''alohacamp_exists_2''} \<longrightarrow> u k = u0 k) \<and>
     (is_found c \<longrightarrow> (\<forall>k \<in> dom (contact_linkage c). u k = contact_linkage c k)) \<and>
     (is_found d \<longrightarrow> (\<forall>k \<in> dom (deal_linkage d). u k = deal_linkage d k)) \<and>
     (is_found a \<longrightarrow> (\<forall>k \<in> dom (directory_linkage a). u k = directory_linkage a k)) \<and>
     u (ustr ''alohacamp_exists_2'') = Some (PBool (is_found a))"
  using assms
  by (simp add: add_linkage_def map_index_found ex_bind_def Let_def contact_linkage_def
        deal_linkage_def directory_linkage_def ustr_inj map_add_def)

lemma process_lead_eq:
  assumes c: "check_contact_duplicates e lead w = (Inr c, w1)"
      and d: "check_deal_duplicates e lead w1 = (Inr d, w2)"
      and a: "check_alohacamp_duplicates e lead w2 = (Inr a, w3)"
  shows "process_lead e lead w =
     (case overall_status c d a of
        Inl ex \<Rightarrow> (Inl ex, w3)
      | Inr (status, needs_deal, reason) \<Rightarrow>
          (add_linkage
            [ustr ''hubspot_duplicate_check_2'' \<mapsto> PStr status,
             ustr ''hubspot_checked_at_2'' \<mapsto> PStr (now_isoformat e w3),
             ustr ''needs_hubspot_deal'' \<mapsto> PBool needs_deal,
             ustr ''deal_creation_reason'' \<mapsto> PStr reason] c d a, w3))"
  unfolding process_lead_def
  apply (subst io_bind_Inr [where m = "check_contact_duplicates e lead", OF c])
  apply (subst io_bind_Inr [where m = "check_deal_duplicates e lead", OF d])
  apply (subst io_bind_Inr [where m = "check_alohacamp_duplicates e lead", OF a])
  apply (simp add: io_bind_def io_lift_def split: sum.splits prod.splits)
  done

lemma process_lead_InrD:
  assumes "process_lead e lead w = (Inr u, w')"
  shows "\<exists>c d a w1 w2. check_contact_duplicates e lead w = (Inr c, w1) \<and>
            check_deal_duplicates e lead w1 = (Inr d, w2) \<and>
            check_alohacamp_duplicates e lead w2 = (Inr a, w')"
proof -
  obtain rc w1 where c: "check_contact_duplicates e lead w = (rc, w1)" by fastforce
  obtain rd w2 where d: "check_deal_duplicates e lead w1 = (rd, w2)" by fastforce
  obtain ra w3 where a: "check_alohacamp_duplicates e lead w2 = (ra, w3)" by fastforce
  show ?thesis
  proof (cases rc)
    case (Inl ex)
    then have "process_lead e lead w = (Inl ex, w1)"
      using c by (simp add: process_lead_def io_bind_def)
    with assms show ?thesis by simp
  next
    case rc: (Inr cv)
    show ?thesis
    proof (cases rd)
      case (Inl ex)
      then have "process_lead e lead w = (Inl ex, w2)"
        using c d rc by (simp add: process_lead_def io_bind_def)
      with assms show ?thesis by simp
    next
      case rd: (Inr dv)
      show ?thesis
      proof (cases ra)
        case (Inl ex)
        then have "process_lead e lead w = (Inl ex, w3)"
          using c d a rc rd by (simp add: process_lead_def io_bind_def)
        with assms show ?thesis by simp
      next
        case ra: (Inr av)
        have "snd (process_lead e lead w) = w3"
          using process_lead_eq [of e lead w cv w1 dv w2 av w3] c d a rc rd ra
          by (simp split: sum.splits prod.splits)
        with assms have "w' = w3" by simp
        with c d a rc rd ra show ?thesis by simp
      qed
    qed
  qed
qed


lemma process_lead_returns:
  assumes c: "check_contact_duplicates e lead w = (Inr c, w1)"
      and d: "check_deal_duplicates e lead w1 = (Inr d, w2)"
      and a: "check_alohacamp_duplicates e lead w2 = (Inr a, w3)"
  shows "\<exists>u. process_lead e lead w = (Inr u, w3)"
proof -
  note fl = check_contact_flag [OF c] check_deal_flag [OF d] check_alohacamp_flag [OF a]
  obtain st where st: "overall_status c d a = Inr st"
    using overall_status_eq [OF fl] by simp
  obtain s n r where "st = (s, n, r)" by (cases st)
  define u0 where "u0 = [ustr ''hubspot_duplicate_check_2'' \<mapsto> PStr s,
             ustr ''hubspot_checked_at_2'' \<mapsto> PStr (now_isoformat e w3),
             ustr ''needs_hubspot_deal'' \<mapsto> PBool n,
             ustr ''deal_creation_reason'' \<mapsto> PStr r]"
  have pl: "process_lead e lead w = (add_linkage u0 c d a, w3)"
    using process_lead_eq [OF c d a] st \<open>st = (s, n, r)\<close> by (simp add: u0_def)
  from add_linkage_eq [OF fl, of u0] obtain u where "add_linkage u0 c d a = Inr u" by blast
  with pl show ?thesis by simp
qed

lemmas eval_defs =
  check_contact_duplicates_def check_deal_duplicates_def check_alohacamp_duplicates_def
  search_contacts_by_email_def search_contacts_by_phone_def search_contacts_by_name_def
  search_deals_by_property_name_def search_properties_def hubspot_search_def
  io_bind_def io_ret_def io_lift_def ex_bind_def try_except_def
  dict_get_def normalize_phone_def default_region_def normalize_phone_try_def
  truthy_opt_def opt_val_def contact_found_def deal_found_def alohacamp_found_def
  name_scores_def candidate_name_def property_score_def py_str_def
  normalize_text_def strip_def sub_other_def is_space_def is_lower_alnum_def
  ustr_def Let_def

lemma crm_contact:
  "\<exists>c w1. check_contact_duplicates crm_env lead_a w = (Inr c, w1) \<and> is_found c"
  by (simp add: eval_defs crm_env_def crm_http_def base_env_def lead_a_def contact_a_def is_found_def)

lemma crm_deal:
  "\<exists>c w1. check_deal_duplicates crm_env lead_a w = (Inr c, w1) \<and> is_found c"
  by (simp add: eval_defs crm_env_def crm_http_def base_env_def lead_a_def deal_a_def is_found_def
     ascii_lower_def exact_ratio_def)

lemma crm_directory:
  "\<exists>c w1. check_alohacamp_duplicates crm_env lead_a w = (Inr c, w1) \<and> \<not> is_found c"
  by (simp add: eval_defs crm_env_def crm_http_def base_env_def lead_a_def is_found_def)


lemma deal_env_checks:
  "\<exists>c w1. check_contact_duplicates deal_env lead_a w = (Inr c, w1) \<and> \<not> is_found c"
  "\<exists>c w1. check_deal_duplicates deal_env lead_a w = (Inr c, w1) \<and> is_found c"
  "\<exists>c w1. check_alohacamp_duplicates deal_env lead_a w = (Inr c, w1) \<and> \<not> is_found c"
  by (simp_all add: eval_defs deal_env_def answers_def base_env_def lead_a_def deal_a_def
      is_found_def ascii_lower_def exact_ratio_def)

lemma aloha_env_checks:
  "\<exists>c w1. check_contact_duplicates aloha_env lead_a w = (Inr c, w1) \<and> \<not> is_found c"
  "\<exists>c w1. check_deal_duplicates aloha_env lead_a w = (Inr c, w1) \<and> \<not> is_found c"
  "\<exists>c w1. check_alohacamp_duplicates aloha_env lead_a w = (Inr c, w1) \<and> is_found c"
  by (simp_all add: eval_defs aloha_env_def answers_def base_env_def lead_a_def record_a_def
      is_found_def ascii_lower_def exact_ratio_def escape_quotes_def)

lemma base_env_checks:
  "\<exists>c w1. check_contact_duplicates base_env lead_b w = (Inr c, w1) \<and> \<not> is_found c"
  "\<exists>c w1. check_deal_duplicates base_env lead_b w = (Inr c, w1) \<and> \<not> is_found c"
  "\<exists>c w1. check_alohacamp_duplicates base_env lead_b w = (Inr c, w1) \<and> \<not> is_found c"
  by (simp_all add: eval_defs base_env_def lead_b_def is_found_def)

text \<open>
  C1.  Whenever the three checks return, \<open>process_lead\<close> returns an update record, and
  the record follows the priority order of the three categories: a contact match gives \<open>duplicate\<close>/\<open>contact_duplicate\<close> with the
  follow-up flag set, whatever the deal and directory checks found; otherwise a deal
  match gives \<open>duplicate\<close>/\<open>deal_exists\<close> without follow-up; otherwise a directory match
  gives \<open>duplicate\<close>/\<open>alohacamp_exists\<close> without follow-up; otherwise the lead is
  \<open>unique\<close>/\<open>new_lead\<close> with follow-up.  In particular \<open>unique\<close> comes with \<open>new_lead\<close> and
  the follow-up flag only.
\<close>

theorem process_lead_priority:
  assumes c: "check_contact_duplicates e lead w = (Inr c, w1)"
      and d: "check_deal_duplicates e lead w1 = (Inr d, w2)"
      and a: "check_alohacamp_duplicates e lead w2 = (Inr a, w3)"
  shows "\<exists>u. process_lead e lead w = (Inr u, w3) \<and>
           verdict_of u = priority_verdict (is_found c) (is_found d) (is_found a) \<and>
           (is_found c \<longrightarrow> u (ustr ''deal_creation_reason'') = Some (PStr (ustr ''contact_duplicate''))) \<and>
           (u (ustr ''hubspot_duplicate_check_2'') = Some (PStr (ustr ''unique'')) \<longrightarrow>
              u (ustr ''deal_creation_reason'') = Some (PStr (ustr ''new_lead'')) \<and>
              u (ustr ''needs_hubspot_deal'') = Some (PBool True))"
proof -
  obtain u where ret: "process_lead e lead w = (Inr u, w3)"
    using process_lead_returns [OF c d a] by blast
  note fl = check_contact_flag [OF c] check_deal_flag [OF d] check_alohacamp_flag [OF a]
  define u0 where "u0 = [ustr ''hubspot_duplicate_check_2'' \<mapsto> PStr (fst (projr (overall_status c d a))),
             ustr ''hubspot_checked_at_2'' \<mapsto> PStr (now_isoformat e w3),
             ustr ''needs_hubspot_deal'' \<mapsto> PBool (fst (snd (projr (overall_status c d a)))),
             ustr ''deal_creation_reason'' \<mapsto> PStr (snd (snd (projr (overall_status c d a))))]"
  have pl: "add_linkage u0 c d a = Inr u"
    using process_lead_eq [OF c d a] ret overall_status_eq [OF fl]
    by (simp add: u0_def split: if_splits)
  from add_linkage_eq [OF fl, of u0] pl
  have keep: "\<forall>k. k \<notin> dom (contact_linkage c) \<union> dom (deal_linkage d) \<union> dom (directory_linkage a)
           \<union> {ustr ''alohacamp_exists_2''} \<longrightarrow> u k = u0 k" by auto
  have k: "u (ustr ''hubspot_duplicate_check_2'') = u0 (ustr ''hubspot_duplicate_check_2'')"
    "u (ustr ''deal_creation_reason'') = u0 (ustr ''deal_creation_reason'')"
    "u (ustr ''needs_hubspot_deal'') = u0 (ustr ''needs_hubspot_deal'')"
    using keep by (simp_all add: contact_linkage_def deal_linkage_def directory_linkage_def ustr_inj)
  have v: "verdict_of u = priority_verdict (is_found c) (is_found d) (is_found a)"
    unfolding verdict_of_def k
    by (simp add: u0_def overall_status_eq [OF fl] priority_verdict_def verdict_def ustr_inj)
  then have "(is_found c \<longrightarrow> u (ustr ''deal_creation_reason'') = Some (PStr (ustr ''contact_duplicate''))) \<and>
           (u (ustr ''hubspot_duplicate_check_2'') = Some (PStr (ustr ''unique'')) \<longrightarrow>
              u (ustr ''deal_creation_reason'') = Some (PStr (ustr ''new_lead'')) \<and>
              u (ustr ''needs_hubspot_deal'') = Some (PBool True))"
    by (auto simp: verdict_of_def priority_verdict_def verdict_def ustr_inj split: if_splits)
  with ret v show ?thesis by blast
qed

theorem process_lead_priority_witness:
  "(\<exists>u w'. process_lead crm_env lead_a world0 = (Inr u, w') \<and>
      verdict_of u = verdict ''duplicate'' ''contact_duplicate'' True) \<and>
   (\<exists>u w'. process_lead deal_env lead_a world0 = (Inr u, w') \<and>
      verdict_of u = verdict ''duplicate'' ''deal_exists'' False) \<and>
   (\<exists>u w'. process_lead aloha_env lead_a world0 = (Inr u, w') \<and>
      verdict_of u = verdict ''duplicate'' ''alohacamp_exists'' False) \<and>
   (\<exists>u w'. process_lead base_env lead_b world0 = (Inr u, w') \<and>
      verdict_of u = verdict ''unique'' ''new_lead'' True)"
proof (intro conjI)
  obtain c w1 where c: "check_contact_duplicates crm_env lead_a world0 = (Inr c, w1)"
    and fc: "is_found c" using crm_contact by blast
  obtain d w2 where d: "check_deal_duplicates crm_env lead_a w1 = (Inr d, w2)"
    using crm_deal by blast
  obtain a w3 where a: "check_alohacamp_duplicates crm_env lead_a w2 = (Inr a, w3)"
    using crm_directory by blast
  from process_lead_priority [OF c d a] fc
  show "\<exists>u w'. process_lead crm_env lead_a world0 = (Inr u, w') \<and>
      verdict_of u = verdict ''duplicate'' ''contact_duplicate'' True"
    by (auto simp: priority_verdict_def)
next
  obtain c w1 where c: "check_contact_duplicates deal_env lead_a world0 = (Inr c, w1)"
    and fc: "\<not> is_found c" using deal_env_checks(1) by blast
  obtain d w2 where d: "check_deal_duplicates deal_env lead_a w1 = (Inr d, w2)"
    and fd: "is_found d" using deal_env_checks(2) by blast
  obtain a w3 where a: "check_alohacamp_duplicates deal_env lead_a w2 = (Inr a, w3)"
    using deal_env_checks(3) by blast
  from process_lead_priority [OF c d a] fc fd
  show "\<exists>u w'. process_lead deal_env lead_a world0 = (Inr u, w') \<and>
      verdict_of u = verdict ''duplicate'' ''deal_exists'' False"
    by (auto simp: priority_verdict_def)
next
  obtain c w1 where c: "check_contact_duplicates aloha_env lead_a world0 = (Inr c, w1)"
    and fc: "\<not> is_found c" using aloha_env_checks(1) by blast
  obtain d w2 where d: "check_deal_duplicates aloha_env lead_a w1 = (Inr d, w2)"
    and fd: "\<not> is_found d" using aloha_env_checks(2) by blast
  obtain a w3 where a: "check_alohacamp_duplicates aloha_env lead_a w2 = (Inr a, w3)"
    and fa: "is_found a" using aloha_env_checks(3) by blast
  from process_lead_priority [OF c d a] fc fd fa
  show "\<exists>u w'. process_lead aloha_env lead_a world0 = (Inr u, w') \<and>
      verdict_of u = verdict ''duplicate'' ''alohacamp_exists'' False"
    by (auto simp: priority_verdict_def)
next
  obtain c w1 where c: "check_contact_duplicates base_env lead_b world0 = (Inr c, w1)"
    and fc: "\<not> is_found c" using base_env_checks(1) by blast
  obtain d w2 where d: "check_deal_duplicates base_env lead_b w1 = (Inr d, w2)"
    and fd: "\<not> is_found d" using base_env_checks(2) by blast
  obtain a w3 where a: "check_alohacamp_duplicates base_env lead_b w2 = (Inr a, w3)"
    and fa: "\<not> is_found a" using base_env_checks(3) by blast
  from process_lead_priority [OF c d a] fc fd fa
  show "\<exists>u w'. process_lead base_env lead_b world0 = (Inr u, w') \<and>
      verdict_of u = verdict ''unique'' ''new_lead'' True"
    by (auto simp: priority_verdict_def)
qed

lemma keeps_ret: "keeps_store (io_ret x)"
  by (simp add: keeps_store_def io_ret_def)

lemma keeps_lift: "keeps_store (io_lift r)"
  by (simp add: keeps_store_def io_lift_def)

lemma keeps_bind: "keeps_store m \<Longrightarrow> (\<And>x. keeps_store (f x)) \<Longrightarrow> keeps_store (io_bind m f)"
  unfolding keeps_store_def io_bind_def
  by (auto split: prod.splits sum.splits) (metis snd_conv)+

lemma keeps_if: "keeps_store a \<Longrightarrow> keeps_store b \<Longrightarrow> keeps_store (if c then a else b)"
  by simp

lemma keeps_prod: "(\<And>a b. keeps_store (f a b)) \<Longrightarrow> keeps_store (case p of (a, b) \<Rightarrow> f a b)"
  by (cases p) simp

lemma keeps_hubspot_search: "keeps_store (hubspot_search e req)"
  by (simp add: keeps_store_def hubspot_search_def Let_def)

lemma keeps_search_properties: "keeps_store (search_properties e b p c)"
  by (simp add: keeps_store_def search_properties_def Let_def split: pyval.splits)

lemma keeps_now: "keeps_store (\<lambda>w. (Inr (f w), w))"
  by (simp add: keeps_store_def)

lemmas keeps_rules =
  keeps_ret keeps_lift keeps_bind keeps_if keeps_prod keeps_hubspot_search
  keeps_search_properties keeps_now

lemma keeps_check_contact: "keeps_store (check_contact_duplicates e lead)"
  unfolding check_contact_duplicates_def Let_def search_contacts_by_email_def
    search_contacts_by_phone_def search_contacts_by_name_def
  by (intro keeps_rules)

lemma keeps_check_deal: "keeps_store (check_deal_duplicates e lead)"
  unfolding check_deal_duplicates_def Let_def search_deals_by_property_name_def
  by (intro keeps_rules)

lemma keeps_check_alohacamp: "keeps_store (check_alohacamp_duplicates e lead)"
  unfolding check_alohacamp_duplicates_def Let_def
  by (cases "airtable e") (auto intro!: keeps_rules)

lemma keeps_process_lead: "keeps_store (process_lead e lead)"
  unfolding process_lead_def
  by (intro keeps_rules keeps_check_contact keeps_check_deal keeps_check_alohacamp)

lemma process_batch_try_writes:
  assumes pl: "process_lead e lead w = (Inr u, w3)"
      and i: "map_of lead (ustr ''id'') = Some lead_id"
  shows "process_batch_try e lead w =
      ((case store_update e w3 lead_id u of Inl ex \<Rightarrow> Inl ex | Inr data \<Rightarrow> Inr (truthy data)),
       w3\<lparr>store_log := store_log w @ [StoreUpdate lead_id u]\<rparr>)"
proof -
  have "store_log w3 = store_log w"
    using keeps_process_lead [of e lead] pl by (auto simp: keeps_store_def dest: spec [of _ w])
  then show ?thesis
    unfolding process_batch_try_def
    apply (subst io_bind_Inr [where m = "process_lead e lead", OF pl])
    apply (simp add: io_bind_def io_lift_def io_ret_def dict_index_def i supabase_update_def
        split: sum.splits)
    done
qed

lemma crm_store_checks:
  "\<exists>c w1. check_contact_duplicates crm_store_env lead_a w = (Inr c, w1) \<and> is_found c \<and>
      map_get c (ustr ''contact_id'') = PStr (ustr ''101'') \<and>
      map_get c (ustr ''match_type'') = PStr (ustr ''email'')"
  "\<exists>c w1. check_deal_duplicates crm_store_env lead_a w = (Inr c, w1) \<and> is_found c \<and>
      map_get c (ustr ''deal_id'') = PStr (ustr ''501'') \<and>
      map_get c (ustr ''deal_score'') = PFloat 100"
  "\<exists>c w1. check_alohacamp_duplicates crm_store_env lead_a w = (Inr c, w1) \<and> \<not> is_found c"
  by (simp_all add: eval_defs crm_store_env_def crm_env_def crm_http_def base_env_def lead_a_def
      contact_a_def deal_a_def is_found_def map_get_def ascii_lower_def exact_ratio_def)

text \<open>
  C7.  The update record carries the linkage fields of every category that found a
  match, whichever category decided the reason: the five contact fields when the contact
  check matched, the three deal fields when the deal check matched, the three directory
  fields when the directory check matched.  The field \<open>alohacamp_exists_2\<close> is always
  written, as \<open>True\<close> or \<open>False\<close>.  This record is the one persisted: for a lead with an
  identifier the \<open>try\<close> block of the batch loop makes one store operation, the update of
  that lead with this record, and its result is the store's answer to it.
\<close>

theorem process_lead_linkage:
  assumes c: "check_contact_duplicates e lead w = (Inr c, w1)"
      and d: "check_deal_duplicates e lead w1 = (Inr d, w2)"
      and a: "check_alohacamp_duplicates e lead w2 = (Inr a, w3)"
  shows "\<exists>u. process_lead e lead w = (Inr u, w3) \<and>
     (is_found c \<longrightarrow>
        u (ustr ''hubspot_contact_id_2'') = Some (map_get c (ustr ''contact_id'')) \<and>
        u (ustr ''hubspot_contact_email_2'') = Some (map_get c (ustr ''contact_email'')) \<and>
        u (ustr ''hubspot_contact_phone_2'') = Some (map_get c (ustr ''contact_phone'')) \<and>
        u (ustr ''hubspot_contact_name_2'') = Some (map_get c (ustr ''contact_name'')) \<and>
        u (ustr ''hubspot_contact_match_type_2'') = Some (map_get c (ustr ''match_type''))) \<and>
     (is_found d \<longrightarrow>
        u (ustr ''hubspot_deal_id_2'') = Some (map_get d (ustr ''deal_id'')) \<and>
        u (ustr ''hubspot_deal_name_2'') = Some (map_get d (ustr ''deal_name'')) \<and>
        u (ustr ''hubspot_deal_score_2'') = Some (map_get d (ustr ''deal_score''))) \<and>
     (is_found a \<longrightarrow>
        u (ustr ''alohacamp_match_id_2'') = Some (map_get a (ustr ''match_id'')) \<and>
        u (ustr ''alohacamp_match_name_2'') = Some (map_get a (ustr ''match_name'')) \<and>
        u (ustr ''alohacamp_score_2'') = Some (map_get a (ustr ''score''))) \<and>
     u (ustr ''alohacamp_exists_2'') = Some (PBool (is_found a)) \<and>
     (\<forall>lead_id. map_of lead (ustr ''id'') = Some lead_id \<longrightarrow>
        process_batch_try e lead w =
          ((case store_update e w3 lead_id u of
              Inl ex \<Rightarrow> Inl ex
            | Inr data \<Rightarrow> Inr (truthy data)),
           w3\<lparr>store_log := store_log w @ [StoreUpdate lead_id u]\<rparr>))"
proof -
  note fl = check_contact_flag [OF c] check_deal_flag [OF d] check_alohacamp_flag [OF a]
  obtain st where st: "overall_status c d a = Inr st"
    using overall_status_eq [OF fl] by simp
  obtain s n r where snr: "st = (s, n, r)" by (cases st)
  define u0 where "u0 = [ustr ''hubspot_duplicate_check_2'' \<mapsto> PStr s,
             ustr ''hubspot_checked_at_2'' \<mapsto> PStr (now_isoformat e w3),
             ustr ''needs_hubspot_deal'' \<mapsto> PBool n,
             ustr ''deal_creation_reason'' \<mapsto> PStr r]"
  have pl: "process_lead e lead w = (add_linkage u0 c d a, w3)"
    using process_lead_eq [OF c d a] st snr by (simp add: u0_def)
  from add_linkage_eq [OF fl, of u0] obtain u where
    u: "add_linkage u0 c d a = Inr u" and
    cl: "is_found c \<longrightarrow> (\<forall>k \<in> dom (contact_linkage c). u k = contact_linkage c k)" and
    dl: "is_found d \<longrightarrow> (\<forall>k \<in> dom (deal_linkage d). u k = deal_linkage d k)" and
    al: "is_found a \<longrightarrow> (\<forall>k \<in> dom (directory_linkage a). u k = directory_linkage a k)" and
    ex: "u (ustr ''alohacamp_exists_2'') = Some (PBool (is_found a))" by blast
  have c': "is_found c \<longrightarrow>
        u (ustr ''hubspot_contact_id_2'') = Some (map_get c (ustr ''contact_id'')) \<and>
        u (ustr ''hubspot_contact_email_2'') = Some (map_get c (ustr ''contact_email'')) \<and>
        u (ustr ''hubspot_contact_phone_2'') = Some (map_get c (ustr ''contact_phone'')) \<and>
        u (ustr ''hubspot_contact_name_2'') = Some (map_get c (ustr ''contact_name'')) \<and>
        u (ustr ''hubspot_contact_match_type_2'') = Some (map_get c (ustr ''match_type''))"
    using cl by (simp add: contact_linkage_def ustr_inj)
  have d': "is_found d \<longrightarrow>
        u (ustr ''hubspot_deal_id_2'') = Some (map_get d (ustr ''deal_id'')) \<and>
        u (ustr ''hubspot_deal_name_2'') = Some (map_get d (ustr ''deal_name'')) \<and>
        u (ustr ''hubspot_deal_score_2'') = Some (map_get d (ustr ''deal_score''))"
    using dl by (simp add: deal_linkage_def ustr_inj)
  have a': "is_found a \<longrightarrow>
        u (ustr ''alohacamp_match_id_2'') = Some (map_get a (ustr ''match_id'')) \<and>
        u (ustr ''alohacamp_match_name_2'') = Some (map_get a (ustr ''match_name'')) \<and>
        u (ustr ''alohacamp_score_2'') = Some (map_get a (ustr ''score''))"
    using al by (simp add: directory_linkage_def ustr_inj)
  have ret: "process_lead e lead w = (Inr u, w3)" using pl u by simp
  have wr: "\<forall>lead_id. map_of lead (ustr ''id'') = Some lead_id \<longrightarrow>
        process_batch_try e lead w =
          ((case store_update e w3 lead_id u of
              Inl ex \<Rightarrow> Inl ex
            | Inr data \<Rightarrow> Inr (truthy data)),
           w3\<lparr>store_log := store_log w @ [StoreUpdate lead_id u]\<rparr>)"
    using process_batch_try_writes [OF ret] by blast
  from ret c' d' a' ex wr show ?thesis by blast
qed



theorem process_lead_linkage_witness:
  "\<exists>u w'. process_lead crm_store_env lead_a world0 = (Inr u, w') \<and>
      u (ustr ''hubspot_contact_id_2'') = Some (PStr (ustr ''101'')) \<and>
      u (ustr ''hubspot_contact_match_type_2'') = Some (PStr (ustr ''email'')) \<and>
      u (ustr ''hubspot_deal_id_2'') = Some (PStr (ustr ''501'')) \<and>
      u (ustr ''hubspot_deal_score_2'') = Some (PFloat 100) \<and>
      u (ustr ''alohacamp_exists_2'') = Some (PBool False) \<and>
      map_of lead_a (ustr ''id'') = Some (PInt 1) \<and>
      process_batch_try crm_store_env lead_a world0 =
        (Inr True, w'\<lparr>store_log := [StoreUpdate (PInt 1) u]\<rparr>)"
proof -
  obtain c w1 where c: "check_contact_duplicates crm_store_env lead_a world0 = (Inr c, w1)"
    and fc: "is_found c" "map_get c (ustr ''contact_id'') = PStr (ustr ''101'')"
      "map_get c (ustr ''match_type'') = PStr (ustr ''email'')"
    using crm_store_checks(1) by blast
  obtain d w2 where d: "check_deal_duplicates crm_store_env lead_a w1 = (Inr d, w2)"
    and fd: "is_found d" "map_get d (ustr ''deal_id'') = PStr (ustr ''501'')"
      "map_get d (ustr ''deal_score'') = PFloat 100"
    using crm_store_checks(2) by blast
  obtain a w3 where a: "check_alohacamp_duplicates crm_store_env lead_a w2 = (Inr a, w3)"
    and fa: "\<not> is_found a" using crm_store_checks(3) by blast
  have i: "map_of lead_a (ustr ''id'') = Some (PInt 1)"
    by (simp add: lead_a_def)
  have st: "store_update crm_store_env w3 (PInt 1) u = Inr (PList [PDict [(ustr ''id'', PInt 1)]])"
    for u by (simp add: crm_store_env_def)
  from process_lead_linkage [OF c d a] fc fd fa i st show ?thesis
    by (auto simp: world0_def)
qed

text \<open>
  C8.  Without a directory client the directory check answers "not found" and leaves the
  world as it is: no remote request is made and nothing is raised.  The same holds, with
  a client, for a lead whose property name is empty.
\<close>

theorem directory_unconfigured_no_call:
  "(airtable e = None \<longrightarrow>
      check_alohacamp_duplicates e lead w = (Inr [ustr ''found'' \<mapsto> PBool False], w)) \<and>
   (\<not> truthy (dict_get lead (ustr ''property_name'') (PStr [])) \<longrightarrow>
      check_alohacamp_duplicates e lead w = (Inr [ustr ''found'' \<mapsto> PBool False], w))"
  by (auto simp: check_alohacamp_duplicates_def io_ret_def Let_def split: option.splits)


theorem directory_unconfigured_no_call_witness:
  "airtable base_env = None \<and>
   check_alohacamp_duplicates base_env lead_a world0 = (Inr [ustr ''found'' \<mapsto> PBool False], world0) \<and>
   airtable directory_env = Some (ustr ''appBASE'') \<and>
   \<not> truthy (dict_get lead_b (ustr ''property_name'') (PStr [])) \<and>
   check_alohacamp_duplicates directory_env lead_b world0 = (Inr [ustr ''found'' \<mapsto> PBool False], world0)"
proof -
  have 1: "airtable base_env = None" by (simp add: base_env_def)
  have 2: "\<not> truthy (dict_get lead_b (ustr ''property_name'') (PStr []))"
    by (simp add: lead_b_def dict_get_def ustr_inj)
  have 3: "airtable directory_env = Some (ustr ''appBASE'')"
    by (simp add: directory_env_def crm_env_def)
  from directory_unconfigured_no_call [of base_env lead_a world0]
    directory_unconfigured_no_call [of directory_env lead_b world0] 1 2 3
  show ?thesis by simp
qed

section \<open>Properties of the deal and directory categories\<close>

lemma candidate_name_wf:
  "well_formed_candidate outer c \<Longrightarrow> candidate_name outer inner c = Inr (cand_field outer inner c)"
  by (auto simp: well_formed_candidate_def candidate_name_def cand_field_def ex_bind_def
      split: pyval.splits)

lemma wf_truthy: "well_formed_candidate outer c \<Longrightarrow> truthy c"
  by (auto simp: well_formed_candidate_def split: pyval.splits)

lemma best_loop_spec:
  assumes "\<forall>c\<in>set cands. well_formed_candidate outer c"
  shows "\<exists>bm bs. best_loop e outer inner (normalize_text e pn) cands (bm0, bs0) = Inr (bm, bs) \<and>
      ((bm = bm0 \<and> bs = bs0 \<and> (\<forall>c\<in>set cands. cand_score e outer inner pn c \<le> bs0)) \<or>
       (bs0 < bs \<and> bs = cand_score e outer inner pn bm \<and>
        (\<exists>pre post. cands = pre @ bm # post \<and>
           (\<forall>x\<in>set pre. cand_score e outer inner pn x < bs) \<and>
           (\<forall>x\<in>set post. cand_score e outer inner pn x \<le> bs))))"
  using assms
proof (induction cands arbitrary: bm0 bs0)
  case Nil
  then show ?case by simp
next
  case (Cons c cs)
  let ?sc = "cand_score e outer inner pn"
  have wf: "well_formed_candidate outer c" and wfs: "\<forall>c\<in>set cs. well_formed_candidate outer c"
    using Cons.prems by simp_all
  have nm: "candidate_name outer inner c = Inr (cand_field outer inner c)"
    using wf by (rule candidate_name_wf)
  show ?case
  proof (cases "bs0 < ?sc c")
    case True
    then have step: "best_loop e outer inner (normalize_text e pn) (c # cs) (bm0, bs0) =
        best_loop e outer inner (normalize_text e pn) cs (c, ?sc c)"
      by (simp add: nm cand_score_def Let_def)
    from Cons.IH [OF wfs, of c "?sc c"] obtain bm bs where
      r: "best_loop e outer inner (normalize_text e pn) cs (c, ?sc c) = Inr (bm, bs)" and
      d: "(bm = c \<and> bs = ?sc c \<and> (\<forall>x\<in>set cs. ?sc x \<le> ?sc c)) \<or>
          (?sc c < bs \<and> bs = ?sc bm \<and>
           (\<exists>pre post. cs = pre @ bm # post \<and> (\<forall>x\<in>set pre. ?sc x < bs) \<and>
              (\<forall>x\<in>set post. ?sc x \<le> bs)))" by blast
    from d show ?thesis
    proof
      assume a: "bm = c \<and> bs = ?sc c \<and> (\<forall>x\<in>set cs. ?sc x \<le> ?sc c)"
      then have "c # cs = [] @ bm # cs \<and> (\<forall>x\<in>set []. ?sc x < bs) \<and> (\<forall>x\<in>set cs. ?sc x \<le> bs)"
        by simp
      then have "\<exists>pre post. c # cs = pre @ bm # post \<and> (\<forall>x\<in>set pre. ?sc x < bs) \<and>
              (\<forall>x\<in>set post. ?sc x \<le> bs)" by blast
      with a True step r show ?thesis by auto
    next
      assume a: "?sc c < bs \<and> bs = ?sc bm \<and>
           (\<exists>pre post. cs = pre @ bm # post \<and> (\<forall>x\<in>set pre. ?sc x < bs) \<and>
              (\<forall>x\<in>set post. ?sc x \<le> bs))"
      then obtain pre post where p: "cs = pre @ bm # post" "\<forall>x\<in>set pre. ?sc x < bs"
        "\<forall>x\<in>set post. ?sc x \<le> bs" by blast
      then have "c # cs = (c # pre) @ bm # post \<and> (\<forall>x\<in>set (c # pre). ?sc x < bs) \<and>
          (\<forall>x\<in>set post. ?sc x \<le> bs)" using a by simp
      then have "\<exists>pre post. c # cs = pre @ bm # post \<and> (\<forall>x\<in>set pre. ?sc x < bs) \<and>
              (\<forall>x\<in>set post. ?sc x \<le> bs)" by blast
      moreover have "bs0 < bs" using a True by simp
      ultimately show ?thesis using a step r by auto
    qed
  next
    case False
    then have step: "best_loop e outer inner (normalize_text e pn) (c # cs) (bm0, bs0) =
        best_loop e outer inner (normalize_text e pn) cs (bm0, bs0)"
      by (simp add: nm cand_score_def Let_def)
    from Cons.IH [OF wfs, of bm0 bs0] obtain bm bs where
      r: "best_loop e outer inner (normalize_text e pn) cs (bm0, bs0) = Inr (bm, bs)" and
      d: "(bm = bm0 \<and> bs = bs0 \<and> (\<forall>x\<in>set cs. ?sc x \<le> bs0)) \<or>
          (bs0 < bs \<and> bs = ?sc bm \<and>
           (\<exists>pre post. cs = pre @ bm # post \<and> (\<forall>x\<in>set pre. ?sc x < bs) \<and>
              (\<forall>x\<in>set post. ?sc x \<le> bs)))" by blast
    from d show ?thesis
    proof
      assume a: "bm = bm0 \<and> bs = bs0 \<and> (\<forall>x\<in>set cs. ?sc x \<le> bs0)"
      with False step r show ?thesis by auto
    next
      assume a: "bs0 < bs \<and> bs = ?sc bm \<and>
           (\<exists>pre post. cs = pre @ bm # post \<and> (\<forall>x\<in>set pre. ?sc x < bs) \<and>
              (\<forall>x\<in>set post. ?sc x \<le> bs))"
      then obtain pre post where p: "cs = pre @ bm # post" "\<forall>x\<in>set pre. ?sc x < bs"
        "\<forall>x\<in>set post. ?sc x \<le> bs" by blast
      have "?sc c < bs" using False a by simp
      then have "c # cs = (c # pre) @ bm # post \<and> (\<forall>x\<in>set (c # pre). ?sc x < bs) \<and>
          (\<forall>x\<in>set post. ?sc x \<le> bs)" using p by simp
      then have "\<exists>pre post. c # cs = pre @ bm # post \<and> (\<forall>x\<in>set pre. ?sc x < bs) \<and>
              (\<forall>x\<in>set post. ?sc x \<le> bs)" by blast
      with a step r show ?thesis by auto
    qed
  qed
qed

lemma first_best_Max:
  assumes "first_best score cands c"
  shows "score c = Max (score ` set cands)" and "c \<in> set cands"
proof -
  from assms obtain pre post where p: "cands = pre @ c # post"
    "\<forall>x\<in>set pre. score x < score c" "\<forall>x\<in>set post. score x \<le> score c"
    by (auto simp: first_best_def)
  show "c \<in> set cands" using p by simp
  have "\<forall>x\<in>set cands. score x \<le> score c" using p by auto
  then show "score c = Max (score ` set cands)"
    using \<open>c \<in> set cands\<close> by (intro Max_eqI [symmetric]) auto
qed

lemma best_loop_initial:
  assumes wf: "\<forall>c\<in>set cands. well_formed_candidate outer c" and ne: "cands \<noteq> []"
  shows "\<exists>bm bs. best_loop e outer inner (normalize_text e pn) cands (PNone, 0) = Inr (bm, bs) \<and>
      ((truthy bm \<and> bs \<ge> 70) \<longleftrightarrow> Max (cand_score e outer inner pn ` set cands) \<ge> 70) \<and>
      (truthy bm \<and> bs \<ge> 70 \<longrightarrow>
         first_best (cand_score e outer inner pn) cands bm \<and>
         bs = cand_score e outer inner pn bm)"
proof -
  let ?sc = "cand_score e outer inner pn"
  from best_loop_spec [OF wf, of e inner pn PNone 0] obtain bm bs where
    r: "best_loop e outer inner (normalize_text e pn) cands (PNone, 0) = Inr (bm, bs)" and
    d: "(bm = PNone \<and> bs = 0 \<and> (\<forall>c\<in>set cands. ?sc c \<le> 0)) \<or>
        (0 < bs \<and> bs = ?sc bm \<and> first_best ?sc cands bm)"
    unfolding first_best_def by blast
  from d have "((truthy bm \<and> bs \<ge> 70) \<longleftrightarrow> Max (?sc ` set cands) \<ge> 70) \<and>
      (truthy bm \<and> bs \<ge> 70 \<longrightarrow> first_best ?sc cands bm \<and> bs = ?sc bm)"
  proof
    assume a: "bm = PNone \<and> bs = 0 \<and> (\<forall>c\<in>set cands. ?sc c \<le> 0)"
    have "Max (?sc ` set cands) \<le> 0" using a ne by simp
    then have "\<not> Max (?sc ` set cands) \<ge> 70" by simp
    with a show ?thesis by simp
  next
    assume a: "0 < bs \<and> bs = ?sc bm \<and> first_best ?sc cands bm"
    then have "bs = Max (?sc ` set cands)" "bm \<in> set cands"
      using first_best_Max [of ?sc cands bm] by simp_all
    moreover have "truthy bm" using \<open>bm \<in> set cands\<close> wf wf_truthy by blast
    ultimately show ?thesis using a by simp
  qed
  with r show ?thesis by blast
qed

lemma deal_found_wf:
  assumes "well_formed_candidate (ustr ''properties'') bm"
  shows "deal_found bm bs =
     Inr [ustr ''found'' \<mapsto> PBool True,
          ustr ''deal_id'' \<mapsto> cand_id bm,
          ustr ''deal_name'' \<mapsto> cand_field (ustr ''properties'') (ustr ''dealname'') bm,
          ustr ''deal_score'' \<mapsto> PFloat bs]"
  using assms
  by (auto simp: well_formed_candidate_def deal_found_def cand_id_def cand_field_def ex_bind_def
      split: pyval.splits)

lemma alohacamp_found_wf:
  assumes "well_formed_candidate (ustr ''fields'') bm"
  shows "alohacamp_found bm bs =
     Inr [ustr ''found'' \<mapsto> PBool True,
          ustr ''match_id'' \<mapsto> cand_id bm,
          ustr ''match_name'' \<mapsto> cand_field (ustr ''fields'') (ustr ''Property Name'') bm,
          ustr ''score'' \<mapsto> PFloat bs]"
  using assms
  by (auto simp: well_formed_candidate_def alohacamp_found_def cand_id_def cand_field_def ex_bind_def
      split: pyval.splits)

lemma check_deal_best:
  assumes pn: "property_name = dict_get lead (ustr ''property_name'') (PStr [])"
      and city: "city = dict_get lead (ustr ''address_city_from_lead'') (PStr [])"
      and t: "truthy property_name"
      and s: "search_deals_by_property_name e property_name city w = (Inr (PList cands), w')"
      and ne: "cands \<noteq> []"
      and wf: "\<forall>c\<in>set cands. well_formed_candidate (ustr ''properties'') c"
      and sc: "score = cand_score e (ustr ''properties'') (ustr ''dealname'') property_name"
  shows "\<exists>res. check_deal_duplicates e lead w = (Inr res, w') \<and>
      (is_found res \<longleftrightarrow> Max (score ` set cands) \<ge> 70) \<and>
      (is_found res \<longrightarrow>
         (\<exists>c. first_best score cands c \<and>
              map_get res (ustr ''deal_id'') = cand_id c \<and>
              map_get res (ustr ''deal_score'') = PFloat (score c)))"
proof -
  from best_loop_initial [OF wf ne, of e "ustr ''dealname''" property_name]
  obtain bm bs where
    r: "best_loop e (ustr ''properties'') (ustr ''dealname'') (normalize_text e property_name) cands (PNone, 0) = Inr (bm, bs)"
    and iff: "(truthy bm \<and> bs \<ge> 70) \<longleftrightarrow> Max (score ` set cands) \<ge> 70"
    and fb: "truthy bm \<and> bs \<ge> 70 \<longrightarrow> first_best score cands bm \<and> bs = score bm"
    unfolding sc by blast
  have eq: "check_deal_duplicates e lead w =
      ((if truthy bm \<and> bs \<ge> 70 then deal_found bm bs else Inr [ustr ''found'' \<mapsto> PBool False]), w')"
    unfolding check_deal_duplicates_def Let_def pn [symmetric] city [symmetric]
    using t ne by (simp add: io_bind_Inr [where m = "search_deals_by_property_name e property_name city", OF s]
        io_lift_def ex_bind_def r)
  show ?thesis
  proof (cases "truthy bm \<and> bs \<ge> 70")
    case True
    with fb have f: "first_best score cands bm" "bs = score bm" by simp_all
    then have "bm \<in> set cands" using first_best_Max(2) by fast
    with wf have "well_formed_candidate (ustr ''properties'') bm" by simp
    from deal_found_wf [OF this, of bs] eq True iff f show ?thesis
      by (auto simp: is_found_def map_get_def ustr_inj)
  next
    case False
    with eq iff show ?thesis by (auto simp: is_found_def)
  qed
qed

lemma check_alohacamp_best:
  assumes a: "airtable e = Some base_id"
      and pn: "property_name = dict_get lead (ustr ''property_name'') (PStr [])"
      and city: "city = dict_get lead (ustr ''address_city_from_lead'') (PStr [])"
      and t: "truthy property_name"
      and s: "search_properties e base_id property_name city w = (Inr (PList cands), w')"
      and ne: "cands \<noteq> []"
      and wf: "\<forall>c\<in>set cands. well_formed_candidate (ustr ''fields'') c"
      and sc: "score = cand_score e (ustr ''fields'') (ustr ''Name'') property_name"
  shows "\<exists>res. check_alohacamp_duplicates e lead w = (Inr res, w') \<and>
      (is_found res \<longleftrightarrow> Max (score ` set cands) \<ge> 70) \<and>
      (is_found res \<longrightarrow>
         (\<exists>c. first_best score cands c \<and>
              map_get res (ustr ''match_id'') = cand_id c \<and>
              map_get res (ustr ''score'') = PFloat (score c)))"
proof -
  from best_loop_initial [OF wf ne, of e "ustr ''Name''" property_name]
  obtain bm bs where
    r: "best_loop e (ustr ''fields'') (ustr ''Name'') (normalize_text e property_name) cands (PNone, 0) = Inr (bm, bs)"
    and iff: "(truthy bm \<and> bs \<ge> 70) \<longleftrightarrow> Max (score ` set cands) \<ge> 70"
    and fb: "truthy bm \<and> bs \<ge> 70 \<longrightarrow> first_best score cands bm \<and> bs = score bm"
    unfolding sc by blast
  have eq: "check_alohacamp_duplicates e lead w =
      ((if truthy bm \<and> bs \<ge> 70 then alohacamp_found bm bs else Inr [ustr ''found'' \<mapsto> PBool False]), w')"
    unfolding check_alohacamp_duplicates_def Let_def pn [symmetric] city [symmetric]
    using t ne a by (simp add: io_bind_Inr [where m = "search_properties e base_id property_name city", OF s]
        io_lift_def ex_bind_def r)
  show ?thesis
  proof (cases "truthy bm \<and> bs \<ge> 70")
    case True
    with fb have f: "first_best score cands bm" "bs = score bm" by simp_all
    then have "bm \<in> set cands" using first_best_Max(2) by fast
    with wf have "well_formed_candidate (ustr ''fields'') bm" by simp
    from alohacamp_found_wf [OF this, of bs] eq True iff f show ?thesis
      by (auto simp: is_found_def map_get_def ustr_inj)
  next
    case False
    with eq iff show ?thesis by (auto simp: is_found_def)
  qed
qed

lemmas score_defs =
  score_env_def score_http_def score_deals_def score_records_def deal_of_def record_of_def
  sample_ratio_def base_env_def ascii_lower_def lead_a_def

lemma score_deal_values:
  "cand_score score_env (ustr ''properties'') (ustr ''dealname'') (PStr (ustr ''Seaside Villa'')) ` set score_deals = {69, 70}"
  by (simp add: cand_score_def cand_field_def eval_defs score_defs insert_commute)

lemma score_record_values:
  "cand_score score_env (ustr ''fields'') (ustr ''Name'') (PStr (ustr ''Seaside Villa'')) ` set score_records = {69}"
  by (simp add: cand_score_def cand_field_def eval_defs score_defs)

lemma score_deal_check:
  "\<exists>res. check_deal_duplicates score_env lead_a world0 = (Inr res, world0\<lparr>remote_log := [HubSpotSearch (ustr ''deals'') [(ustr ''dealname'', ustr ''CONTAINS_TOKEN'', PStr (ustr ''Seaside Villa''))] 20]\<rparr>) \<and>
     map_get res (ustr ''deal_id'') = PStr (ustr ''502'') \<and>
     map_get res (ustr ''deal_score'') = PFloat 70"
  by (simp add: eval_defs score_defs map_get_def world0_def)

text \<open>
  C3.  Deal and directory categories, for a non-empty list of candidates returned by the
  search: the category reports a match exactly when the highest score of the list is at
  least 70 (69 is not enough, 70 is), the candidate reported is the first one of the list
  with the highest score, and its score is recorded in the result.
\<close>

theorem best_candidate_threshold:
  assumes pn: "property_name = dict_get lead (ustr ''property_name'') (PStr [])"
      and city: "city = dict_get lead (ustr ''address_city_from_lead'') (PStr [])"
      and t: "truthy property_name"
      and ne: "cands \<noteq> []"
  shows
    "(search_deals_by_property_name e property_name city w = (Inr (PList cands), w') \<and>
      (\<forall>c\<in>set cands. well_formed_candidate (ustr ''properties'') c) \<longrightarrow>
      (\<exists>res. check_deal_duplicates e lead w = (Inr res, w') \<and>
         (is_found res \<longleftrightarrow>
            Max (cand_score e (ustr ''properties'') (ustr ''dealname'') property_name ` set cands) \<ge> 70) \<and>
         (is_found res \<longrightarrow>
            (\<exists>c. first_best (cand_score e (ustr ''properties'') (ustr ''dealname'') property_name) cands c \<and>
                 map_get res (ustr ''deal_id'') = cand_id c \<and>
                 map_get res (ustr ''deal_score'') =
                   PFloat (cand_score e (ustr ''properties'') (ustr ''dealname'') property_name c))))) \<and>
     (airtable e = Some base_id \<and>
      search_properties e base_id property_name city w = (Inr (PList cands), w') \<and>
      (\<forall>c\<in>set cands. well_formed_candidate (ustr ''fields'') c) \<longrightarrow>
      (\<exists>res. check_alohacamp_duplicates e lead w = (Inr res, w') \<and>
         (is_found res \<longleftrightarrow>
            Max (cand_score e (ustr ''fields'') (ustr ''Name'') property_name ` set cands) \<ge> 70) \<and>
         (is_found res \<longrightarrow>
            (\<exists>c. first_best (cand_score e (ustr ''fields'') (ustr ''Name'') property_name) cands c \<and>
                 map_get res (ustr ''match_id'') = cand_id c \<and>
                 map_get res (ustr ''score'') =
                   PFloat (cand_score e (ustr ''fields'') (ustr ''Name'') property_name c)))))"
proof (intro conjI impI)
  assume "search_deals_by_property_name e property_name city w = (Inr (PList cands), w') \<and>
      (\<forall>c\<in>set cands. well_formed_candidate (ustr ''properties'') c)"
  then show "\<exists>res. check_deal_duplicates e lead w = (Inr res, w') \<and>
         (is_found res \<longleftrightarrow>
            Max (cand_score e (ustr ''properties'') (ustr ''dealname'') property_name ` set cands) \<ge> 70) \<and>
         (is_found res \<longrightarrow>
            (\<exists>c. first_best (cand_score e (ustr ''properties'') (ustr ''dealname'') property_name) cands c \<and>
                 map_get res (ustr ''deal_id'') = cand_id c \<and>
                 map_get res (ustr ''deal_score'') =
                   PFloat (cand_score e (ustr ''properties'') (ustr ''dealname'') property_name c)))"
    using check_deal_best [OF pn city t _ ne _ refl, of e w w'] by blast
next
  assume "airtable e = Some base_id \<and>
      search_properties e base_id property_name city w = (Inr (PList cands), w') \<and>
      (\<forall>c\<in>set cands. well_formed_candidate (ustr ''fields'') c)"
  then show "\<exists>res. check_alohacamp_duplicates e lead w = (Inr res, w') \<and>
         (is_found res \<longleftrightarrow>
            Max (cand_score e (ustr ''fields'') (ustr ''Name'') property_name ` set cands) \<ge> 70) \<and>
         (is_found res \<longrightarrow>
            (\<exists>c. first_best (cand_score e (ustr ''fields'') (ustr ''Name'') property_name) cands c \<and>
                 map_get res (ustr ''match_id'') = cand_id c \<and>
                 map_get res (ustr ''score'') =
                   PFloat (cand_score e (ustr ''fields'') (ustr ''Name'') property_name c)))"
    using check_alohacamp_best [OF _ pn city t _ ne _ refl, of e base_id w w'] by blast
qed

theorem best_candidate_threshold_witness:
  "(\<exists>res w'. check_deal_duplicates score_env lead_a world0 = (Inr res, w') \<and>
       Max (cand_score score_env (ustr ''properties'') (ustr ''dealname'')
              (PStr (ustr ''Seaside Villa'')) ` set score_deals) = 70 \<and>
       is_found res \<and>
       map_get res (ustr ''deal_id'') = PStr (ustr ''502'') \<and>
       map_get res (ustr ''deal_score'') = PFloat 70) \<and>
   (\<exists>res w'. check_alohacamp_duplicates score_env lead_a world0 = (Inr res, w') \<and>
       Max (cand_score score_env (ustr ''fields'') (ustr ''Name'')
              (PStr (ustr ''Seaside Villa'')) ` set score_records) = 69 \<and>
       \<not> is_found res)"
proof -
  define w1 where "w1 = world0\<lparr>remote_log := [HubSpotSearch (ustr ''deals'')
      [(ustr ''dealname'', ustr ''CONTAINS_TOKEN'', PStr (ustr ''Seaside Villa''))] 20]\<rparr>"
  define w2 where "w2 = world0\<lparr>remote_log := [AirtableSearch (ustr ''appBASE'')
      (ustr ''Seaside Villa'') 20]\<rparr>"
  have pn: "PStr (ustr ''Seaside Villa'') = dict_get lead_a (ustr ''property_name'') (PStr [])"
    by (simp add: lead_a_def dict_get_def ustr_inj)
  have city: "PStr [] = dict_get lead_a (ustr ''address_city_from_lead'') (PStr [])"
    by (simp add: lead_a_def dict_get_def ustr_inj)
  have t: "truthy (PStr (ustr ''Seaside Villa''))" by (simp add: ustr_Nil)
  have ne: "score_deals \<noteq> []" "score_records \<noteq> []"
    by (simp_all add: score_deals_def score_records_def)
  have sd: "search_deals_by_property_name score_env (PStr (ustr ''Seaside Villa'')) (PStr []) world0
      = (Inr (PList score_deals), w1)"
    by (simp add: w1_def eval_defs score_env_def score_http_def world0_def)
  have wfd: "\<forall>c\<in>set score_deals. well_formed_candidate (ustr ''properties'') c"
    by (simp add: score_deals_def deal_of_def well_formed_candidate_def dict_get_def ustr_inj)
  have a: "airtable score_env = Some (ustr ''appBASE'')" by (simp add: score_env_def)
  have sr: "search_properties score_env (ustr ''appBASE'') (PStr (ustr ''Seaside Villa'')) (PStr []) world0
      = (Inr (PList score_records), w2)"
    by (simp add: w2_def eval_defs escape_quotes_def score_env_def score_http_def world0_def)
  have wfr: "\<forall>c\<in>set score_records. well_formed_candidate (ustr ''fields'') c"
    by (simp add: score_records_def record_of_def well_formed_candidate_def dict_get_def ustr_inj)
  have md: "Max (cand_score score_env (ustr ''properties'') (ustr ''dealname'')
              (PStr (ustr ''Seaside Villa'')) ` set score_deals) = 70"
    by (simp add: score_deal_values)
  have mr: "Max (cand_score score_env (ustr ''fields'') (ustr ''Name'')
              (PStr (ustr ''Seaside Villa'')) ` set score_records) = 69"
    by (simp add: score_record_values)
  from best_candidate_threshold [OF pn city t ne(1), where e = score_env and w = world0 and w' = w1] sd wfd md
  obtain res where r: "check_deal_duplicates score_env lead_a world0 = (Inr res, w1)" "is_found res"
    by auto
  from score_deal_check r(1) have ids: "map_get res (ustr ''deal_id'') = PStr (ustr ''502'')"
    "map_get res (ustr ''deal_score'') = PFloat 70" by auto
  from best_candidate_threshold [OF pn city t ne(2), where e = score_env and w = world0 and w' = w2
      and base_id = "ustr ''appBASE''"] a sr wfr mr
  obtain res' where r': "check_alohacamp_duplicates score_env lead_a world0 = (Inr res', w2)"
    "\<not> is_found res'" by auto
  from r ids md r' mr show ?thesis by blast
qed

section \<open>Properties of the batch driver\<close>

lemma fetch_leads_batch_cases:
  "(\<exists>ex. store_query e (if truthy s then Some s else None) (n * 10) = Inl ex \<and>
         fetch_leads_batch e n s w = (Inl ex, w)) \<or>
   (\<exists>leads w'. fetch_leads_batch e n s w = (Inr leads, w'))"
  by (auto simp: fetch_leads_batch_def Let_def try_except_def ex_bind_def split: sum.splits)

lemma length_outcomes: "length (outcomes e leads w) = length leads"
  by (induction leads arbitrary: w) (auto split: prod.splits)

lemma batch_loop_counts:
  "\<exists>w'. batch_loop e leads (u, n) w =
     ((u + count_updated (outcomes e leads w), n + count_errors (outcomes e leads w)), w')"
proof (induction leads arbitrary: u n w)
  case Nil
  then show ?case by (simp add: count_updated_def count_errors_def)
next
  case (Cons lead rest)
  obtain r w1 where s: "process_batch_try e lead w = (r, w1)" by fastforce
  show ?case
  proof (cases r)
    case (Inl ex)
    with s Cons [of u "n + 1" w1] show ?thesis
      by (auto simp: count_updated_def count_errors_def)
  next
    case (Inr b)
    with s Cons [of "if b then u + 1 else u" n w1] show ?thesis
      by (auto simp: count_updated_def count_errors_def)
  qed
qed

lemma batch_loop_append:
  "batch_loop e (pre @ post) acc w =
     (case batch_loop e pre acc w of (acc', w') \<Rightarrow> batch_loop e post acc' w')"
proof (induction pre arbitrary: acc w)
  case Nil
  then show ?case by simp
next
  case (Cons lead rest)
  obtain u n where acc: "acc = (u, n)" by (cases acc)
  obtain r w1 where s: "process_batch_try e lead w = (r, w1)" by fastforce
  show ?case using Cons s acc by (cases r) simp_all
qed

lemma batch_loop_continues:
  assumes "batch_loop e pre acc w = ((u, n), wa)"
      and "process_batch_try e lead wa = (Inl ex, wb)"
  shows "batch_loop e (pre @ lead # post) acc w = batch_loop e post (u, n + 1) wb"
  using assms by (simp add: batch_loop_append)

lemmas batch_defs =
  batch_env_def batch_http_def batch_rows_def row_of_def base_env_def

lemma batch_fetch:
  "fetch_leads_batch batch_env 100 PNone world0 =
     (Inr batch_rows, world0\<lparr>store_log := [StoreSelect None 1000]\<rparr>)"
  by (simp add: fetch_leads_batch_def Let_def try_except_def ex_bind_def eligible_def
      dict_get_def py_prefix_def batch_defs world0_def ustr_inj ustr_Nil)

lemma batch_try_1:
  "\<exists>w'. process_batch_try batch_env (row_of 1 ''a@x.com'') w = (Inr True, w')"
  by (simp add: process_batch_try_def process_lead_def overall_status_def add_linkage_def
      map_index_def supabase_update_def dict_index_def eval_defs batch_defs)

lemma batch_try_2:
  "\<exists>w'. process_batch_try batch_env (row_of 2 ''b@x.com'') w = (Inl (RemoteError 500), w')"
  by (simp add: process_batch_try_def process_lead_def overall_status_def add_linkage_def
      map_index_def supabase_update_def dict_index_def eval_defs batch_defs)

lemma batch_try_3:
  "\<exists>w'. process_batch_try batch_env (row_of 3 ''bad@x.com'') w = (Inl AttributeError, w')"
  by (simp add: process_batch_try_def process_lead_def overall_status_def add_linkage_def
      map_index_def supabase_update_def dict_index_def eval_defs batch_defs)

lemma batch_try_4:
  "\<exists>w'. process_batch_try batch_env (row_of 4 ''d@x.com'') w = (Inr False, w')"
  by (simp add: process_batch_try_def process_lead_def overall_status_def add_linkage_def
      map_index_def supabase_update_def dict_index_def eval_defs batch_defs)

lemma batch_outcomes:
  "outcomes batch_env batch_rows w = [Inr True, Inl (RemoteError 500), Inl AttributeError, Inr False]"
proof -
  obtain w1 where 1: "process_batch_try batch_env (row_of 1 ''a@x.com'') w = (Inr True, w1)"
    using batch_try_1 by blast
  obtain w2 where 2: "process_batch_try batch_env (row_of 2 ''b@x.com'') w1 = (Inl (RemoteError 500), w2)"
    using batch_try_2 by blast
  obtain w3 where 3: "process_batch_try batch_env (row_of 3 ''bad@x.com'') w2 = (Inl AttributeError, w3)"
    using batch_try_3 by blast
  obtain w4 where 4: "process_batch_try batch_env (row_of 4 ''d@x.com'') w3 = (Inr False, w4)"
    using batch_try_4 by blast
  show ?thesis by (simp add: batch_rows_def 1 2 3 4)
qed

text \<open>
  C9.  When the fetch gives a non-empty batch, an exception in the cascade or in the
  store update of one lead only adds one to the error count: the loop goes on with the
  leads after it, every lead of the batch has an outcome, and \<open>process_batch\<close> returns the
  summary with the number of leads, the number of successful updates and the number of
  exceptions.  \<open>process_batch\<close> itself raises only when the store client cannot build the
  query of the fetch, before any lead is touched.
\<close>

theorem process_batch_isolates_failures:
  "(\<forall>ex w'. process_batch e batch_size start_id w = (Inl ex, w') \<longrightarrow>
      store_query e (if truthy start_id then Some start_id else None) (batch_size * 10) = Inl ex \<and>
      w' = w) \<and>
   (\<forall>leads w1. fetch_leads_batch e batch_size start_id w = (Inr leads, w1) \<and> leads \<noteq> [] \<longrightarrow>
      (\<exists>w'. process_batch e batch_size start_id w =
         (Inr [ustr ''leads_processed'' \<mapsto> PInt (int (length leads)),
               ustr ''updated_count'' \<mapsto> PInt (int (count_updated (outcomes e leads w1))),
               ustr ''errors'' \<mapsto> PInt (int (count_errors (outcomes e leads w1)))], w')) \<and>
      length (outcomes e leads w1) = length leads \<and>
      (\<forall>pre lead post u n wa ex wb.
          leads = pre @ lead # post \<and> batch_loop e pre (0, 0) w1 = ((u, n), wa) \<and>
          process_batch_try e lead wa = (Inl ex, wb) \<longrightarrow>
          batch_loop e leads (0, 0) w1 = batch_loop e post (u, n + 1) wb))"
proof -
  have c1: "\<forall>ex w'. process_batch e batch_size start_id w = (Inl ex, w') \<longrightarrow>
      store_query e (if truthy start_id then Some start_id else None) (batch_size * 10) = Inl ex \<and>
      w' = w"
  proof (intro allI impI)
  fix ex w'
  assume r: "process_batch e batch_size start_id w = (Inl ex, w')"
  from fetch_leads_batch_cases [of e start_id batch_size w]
  show "store_query e (if truthy start_id then Some start_id else None) (batch_size * 10) = Inl ex \<and>
      w' = w"
  proof
    assume "\<exists>ex. store_query e (if truthy start_id then Some start_id else None) (batch_size * 10) = Inl ex \<and>
         fetch_leads_batch e batch_size start_id w = (Inl ex, w)"
    then obtain ex0 where q: "store_query e (if truthy start_id then Some start_id else None)
        (batch_size * 10) = Inl ex0"
      and f: "fetch_leads_batch e batch_size start_id w = (Inl ex0, w)" by blast
    from f have "process_batch e batch_size start_id w = (Inl ex0, w)"
      by (simp add: process_batch_def io_bind_def)
    with r q show ?thesis by simp
  next
    assume "\<exists>leads w1. fetch_leads_batch e batch_size start_id w = (Inr leads, w1)"
    then obtain leads w1 where f: "fetch_leads_batch e batch_size start_id w = (Inr leads, w1)"
      by blast
    obtain w2 where b: "batch_loop e leads (0, 0) w1 =
       ((0 + count_updated (outcomes e leads w1), 0 + count_errors (outcomes e leads w1)), w2)"
      using batch_loop_counts by blast
    have "\<exists>summary w3. process_batch e batch_size start_id w = (Inr summary, w3)"
      using f b by (cases "leads = []") (simp_all add: process_batch_def io_bind_def io_ret_def)
    with r show ?thesis by simp
  qed
  qed
  have c2: "\<forall>leads w1. fetch_leads_batch e batch_size start_id w = (Inr leads, w1) \<and> leads \<noteq> [] \<longrightarrow>
      (\<exists>w'. process_batch e batch_size start_id w =
         (Inr [ustr ''leads_processed'' \<mapsto> PInt (int (length leads)),
               ustr ''updated_count'' \<mapsto> PInt (int (count_updated (outcomes e leads w1))),
               ustr ''errors'' \<mapsto> PInt (int (count_errors (outcomes e leads w1)))], w')) \<and>
      length (outcomes e leads w1) = length leads \<and>
      (\<forall>pre lead post u n wa ex wb.
          leads = pre @ lead # post \<and> batch_loop e pre (0, 0) w1 = ((u, n), wa) \<and>
          process_batch_try e lead wa = (Inl ex, wb) \<longrightarrow>
          batch_loop e leads (0, 0) w1 = batch_loop e post (u, n + 1) wb)"
  proof (intro conjI allI impI)
  fix leads w1
  assume a: "fetch_leads_batch e batch_size start_id w = (Inr leads, w1) \<and> leads \<noteq> []"
  obtain w' where b: "batch_loop e leads (0, 0) w1 =
     ((0 + count_updated (outcomes e leads w1), 0 + count_errors (outcomes e leads w1)), w')"
    using batch_loop_counts by blast
  show "\<exists>w'. process_batch e batch_size start_id w =
         (Inr [ustr ''leads_processed'' \<mapsto> PInt (int (length leads)),
               ustr ''updated_count'' \<mapsto> PInt (int (count_updated (outcomes e leads w1))),
               ustr ''errors'' \<mapsto> PInt (int (count_errors (outcomes e leads w1)))], w')"
    using a b by (simp add: process_batch_def io_bind_def)
  show "length (outcomes e leads w1) = length leads" by (rule length_outcomes)
next
  fix leads w1 pre lead post u n wa ex wb
  assume "fetch_leads_batch e batch_size start_id w = (Inr leads, w1) \<and> leads \<noteq> []"
  assume "leads = pre @ lead # post \<and> batch_loop e pre (0, 0) w1 = ((u, n), wa) \<and>
          process_batch_try e lead wa = (Inl ex, wb)"
  then show "batch_loop e leads (0, 0) w1 = batch_loop e post (u, n + 1) wb"
    using batch_loop_continues by simp
qed
  from c1 c2 show ?thesis by (rule conjI)
qed


theorem process_batch_isolates_failures_witness:
  "(\<exists>w'. process_batch batch_env 100 PNone world0 =
     (Inr [ustr ''leads_processed'' \<mapsto> PInt 4, ustr ''updated_count'' \<mapsto> PInt 1,
           ustr ''errors'' \<mapsto> PInt 2], w')) \<and>
   (\<exists>w1 wa wb.
      fetch_leads_batch batch_env 100 PNone world0 = (Inr batch_rows, w1) \<and>
      batch_loop batch_env [row_of 1 ''a@x.com''] (0, 0) w1 = ((1, 0), wa) \<and>
      process_batch_try batch_env (row_of 2 ''b@x.com'') wa = (Inl (RemoteError 500), wb) \<and>
      batch_loop batch_env batch_rows (0, 0) w1 =
        batch_loop batch_env [row_of 3 ''bad@x.com'', row_of 4 ''d@x.com''] (1, 1) wb) \<and>
   process_batch no_store_env 100 PNone world0 = (Inl AttributeError, world0) \<and>
   store_query no_store_env None 1000 = Inl AttributeError"
proof -
  have raised: "process_batch no_store_env 100 PNone world0 = (Inl AttributeError, world0)"
    by (simp add: process_batch_def fetch_leads_batch_def io_bind_def no_store_env_def)
  from process_batch_isolates_failures [of no_store_env 100 PNone world0] raised
  have query: "store_query no_store_env None 1000 = Inl AttributeError" by simp
  define w1 where "w1 = world0\<lparr>store_log := [StoreSelect None 1000]\<rparr>"
  have f: "fetch_leads_batch batch_env 100 PNone world0 = (Inr batch_rows, w1)"
    unfolding w1_def by (rule batch_fetch)
  have ne: "batch_rows \<noteq> []" by (simp add: batch_rows_def)
  have len: "length batch_rows = 4" by (simp add: batch_rows_def)
  note t = process_batch_isolates_failures [of batch_env 100 PNone world0]
  from t f ne obtain w' where "process_batch batch_env 100 PNone world0 =
         (Inr [ustr ''leads_processed'' \<mapsto> PInt (int (length batch_rows)),
               ustr ''updated_count'' \<mapsto> PInt (int (count_updated (outcomes batch_env batch_rows w1))),
               ustr ''errors'' \<mapsto> PInt (int (count_errors (outcomes batch_env batch_rows w1)))], w')"
    by blast
  then have a: "\<exists>w'. process_batch batch_env 100 PNone world0 =
     (Inr [ustr ''leads_processed'' \<mapsto> PInt 4, ustr ''updated_count'' \<mapsto> PInt 1,
           ustr ''errors'' \<mapsto> PInt 2], w')"
    by (simp add: batch_outcomes len count_updated_def count_errors_def)
  obtain wa where 1: "process_batch_try batch_env (row_of 1 ''a@x.com'') w1 = (Inr True, wa)"
    using batch_try_1 by blast
  obtain wb where 2: "process_batch_try batch_env (row_of 2 ''b@x.com'') wa = (Inl (RemoteError 500), wb)"
    using batch_try_2 by blast
  have l1: "batch_loop batch_env [row_of 1 ''a@x.com''] (0, 0) w1 = ((1, 0), wa)"
    by (simp add: 1)
  have sp: "batch_rows = [row_of 1 ''a@x.com''] @ row_of 2 ''b@x.com'' #
      [row_of 3 ''bad@x.com'', row_of 4 ''d@x.com'']"
    by (simp add: batch_rows_def)
  from t f ne have "\<forall>pre lead post u n wa ex wb.
          batch_rows = pre @ lead # post \<and> batch_loop batch_env pre (0, 0) w1 = ((u, n), wa) \<and>
          process_batch_try batch_env lead wa = (Inl ex, wb) \<longrightarrow>
          batch_loop batch_env batch_rows (0, 0) w1 = batch_loop batch_env post (u, n + 1) wb"
    by blast
  with sp l1 2 have "batch_loop batch_env batch_rows (0, 0) w1 =
        batch_loop batch_env [row_of 3 ''bad@x.com'', row_of 4 ''d@x.com''] (1, 0 + 1) wb"
    by blast
  then have "batch_loop batch_env batch_rows (0, 0) w1 =
        batch_loop batch_env [row_of 3 ''bad@x.com'', row_of 4 ''d@x.com''] (1, 1) wb" by simp
  with a f l1 2 raised query show ?thesis by blast
qed

section \<open>Properties of the contact category\<close>

lemma search_email_log:
  assumes "search_contacts_by_email e email w = (r, w1)"
  shows "remote_log w1 = remote_log w @
           (if truthy email \<and> email \<noteq> PStr (ustr ''nan'') then [email_request email] else [])"
    and "store_log w1 = store_log w"
    and "\<exists>v. r = Inr v"
  using assms hubspot_search_result [of e "email_request email" w]
  by (auto simp: search_contacts_by_email_def io_ret_def email_request_def split: if_splits)

lemma search_phone_log:
  assumes "search_contacts_by_phone e (opt_val p) w = (r, w1)"
  shows "remote_log w1 = remote_log w @ (if truthy_opt p then [phone_request p] else [])"
    and "store_log w1 = store_log w"
    and "\<exists>v. r = Inr v"
    and "\<not> truthy_opt p \<longrightarrow> r = Inr (PList [])"
  using assms hubspot_search_result [of e "phone_request p" w]
  by (auto simp: search_contacts_by_phone_def io_ret_def phone_request_def truthy_opt_def
      opt_val_def split: if_splits option.splits)

lemma search_name_log:
  assumes "search_contacts_by_name e f l w = (r, w1)"
  shows "remote_log w1 = remote_log w @ (if truthy f \<or> truthy l then [name_request f l] else [])"
    and "store_log w1 = store_log w"
    and "\<exists>v. r = Inr v"
  using assms hubspot_search_result [of e "name_request f l" w]
  by (auto simp: search_contacts_by_name_def io_ret_def name_request_def Let_def
      split: if_splits)

lemma name_scores_wf:
  assumes "well_formed_candidate (ustr ''properties'') c"
  shows "name_scores e f l c =
     Inr (part_score e f (cand_field (ustr ''properties'') (ustr ''firstname'') c),
          part_score e l (cand_field (ustr ''properties'') (ustr ''lastname'') c))"
  using assms
  by (auto simp: well_formed_candidate_def name_scores_def cand_field_def part_score_def
      ex_bind_def split: pyval.splits)

lemma name_loop_find:
  assumes "\<forall>c\<in>set cands. well_formed_candidate (ustr ''properties'') c"
  shows "name_loop e f l cands = Inr (find (name_accepts e f l) cands)"
  using assms
  by (induction cands) (auto simp: name_scores_wf name_accepts_def)

lemma name_loop_or:
  "name_scores e f l c = Inr (fs, ls) \<Longrightarrow> fs \<ge> 80 \<or> ls \<ge> 80 \<Longrightarrow>
     name_loop e f l (c # rest) = Inr (Some c)"
  by simp

lemma io_bind_assoc: "io_bind (io_bind m f) g = io_bind m (\<lambda>x. io_bind (f x) g)"
  by (rule ext) (auto simp: io_bind_def split: prod.splits sum.splits)

lemma check_contact_eq:
  assumes email: "email = dict_get lead (ustr ''email'') (PStr [])"
      and phone: "phone = dict_get lead (ustr ''phone'') (PStr [])"
      and country: "country = dict_get lead (ustr ''country'') (PStr [])"
      and first: "first_name = dict_get lead (ustr ''first_name'') (PStr [])"
      and last: "last_name = dict_get lead (ustr ''last_name'') (PStr [])"
      and p: "normalize_phone e phone country = Inr p"
      and r1: "search_contacts_by_email e email w = (Inr r1, w1)"
      and r2: "search_contacts_by_phone e (opt_val p) w1 = (Inr r2, w2)"
      and r3: "search_contacts_by_name e first_name last_name w2 = (Inr r3, w3)"
  shows "check_contact_duplicates e lead w =
     (if truthy r1 then (contact_found e r1 (PStr (ustr ''email'')), w1)
      else if truthy r2 then (contact_found e r2 (PStr (ustr ''phone'')), w2)
      else if truthy first_name \<or> truthy last_name then
        ((if truthy r3 then
            (case ex_bind (py_iter r3) (name_loop e first_name last_name) of
               Inl ex \<Rightarrow> Inl ex
             | Inr None \<Rightarrow> Inr [ustr ''found'' \<mapsto> PBool False]
             | Inr (Some c) \<Rightarrow> contact_found e (PList [c]) (PStr (ustr ''name'')))
          else Inr [ustr ''found'' \<mapsto> PBool False]), w3)
      else (Inr [ustr ''found'' \<mapsto> PBool False], w2))"
proof -
  have np: "\<not> truthy_opt p \<Longrightarrow> r2 = PList [] \<and> w2 = w1"
    using r2 by (auto simp: search_contacts_by_phone_def io_ret_def truthy_opt_def opt_val_def
        split: option.splits)
  note b1 = io_bind_Inr [where m = "search_contacts_by_email e email", OF r1]
  note b2 = io_bind_Inr [where m = "search_contacts_by_phone e (opt_val p)", OF r2]
  note b3 = io_bind_Inr [where m = "search_contacts_by_name e first_name last_name", OF r3]
  have start: "check_contact_duplicates e lead w =
      io_bind
        (if truthy r1 then io_ret (r1, PStr (ustr ''email''))
         else if truthy_opt p then
           io_bind (search_contacts_by_phone e (opt_val p)) (\<lambda>phone_results.
             io_ret (phone_results,
                     if truthy phone_results then PStr (ustr ''phone'') else PNone))
         else io_ret (r1, PNone))
        (\<lambda>(contact_results, match_type).
      io_bind
        (if \<not> truthy contact_results \<and> (truthy first_name \<or> truthy last_name) then
           io_bind (search_contacts_by_name e first_name last_name) (\<lambda>name_results.
             if truthy name_results then
               io_lift
                 (ex_bind (py_iter name_results) (\<lambda>candidates.
                  ex_bind (name_loop e first_name last_name candidates) (\<lambda>hit.
                  case hit of
                    None \<Rightarrow> Inr (contact_results, match_type)
                  | Some contact \<Rightarrow> Inr (PList [contact], PStr (ustr ''name'')))))
             else io_ret (contact_results, match_type))
         else io_ret (contact_results, match_type))
        (\<lambda>(contact_results, match_type).
      if truthy contact_results
      then io_lift (contact_found e contact_results match_type)
      else io_ret [ustr ''found'' \<mapsto> PBool False])) w1"
    unfolding check_contact_duplicates_def Let_def email [symmetric] phone [symmetric]
      country [symmetric] first [symmetric] last [symmetric]
    by (simp add: io_bind_lift_Inr [OF p] b1)
  show ?thesis
  proof (cases "truthy r1")
    case True
    then show ?thesis unfolding start by (simp add: io_lift_def)
  next
    case f1: False
    show ?thesis
    proof (cases "truthy_opt p")
      case True
      show ?thesis
      proof (cases "truthy r2")
        case True
        with f1 \<open>truthy_opt p\<close> show ?thesis unfolding start
          by (simp add: io_bind_assoc b2 io_lift_def)
      next
        case f2: False
        show ?thesis
        proof (cases "truthy first_name \<or> truthy last_name")
          case True
          with f1 f2 \<open>truthy_opt p\<close> show ?thesis unfolding start
            apply (simp add: io_bind_assoc b2 b3)
            apply (auto simp: io_lift_def io_ret_def io_bind_def ex_bind_def
                split: sum.splits option.splits)
            done
        next
          case False
          with f1 f2 \<open>truthy_opt p\<close> show ?thesis unfolding start
            by (simp add: io_bind_assoc b2 io_ret_def)
        qed
      qed
    next
      case False
      with np have e2: "r2 = PList []" "w2 = w1" by simp_all
      show ?thesis
      proof (cases "truthy first_name \<or> truthy last_name")
        case True
        with f1 False e2 show ?thesis unfolding start
          apply (simp add: io_bind_assoc b3 [unfolded e2])
          apply (auto simp: io_lift_def io_ret_def io_bind_def ex_bind_def
              split: sum.splits option.splits)
          done
      next
        case nn: False
        with f1 False e2 show ?thesis unfolding start
          by (simp add: io_ret_def)
      qed
    qed
  qed
qed

lemmas name_defs =
  name_env_def name_http_def name_cands_def contact_of_def name_ratio_def phone_env_def
  base_env_def ascii_lower_def ascii_upper_def lead_c_def

lemma normalize_phone_total: "\<exists>p. normalize_phone e phone country = Inr p"
  using try_except_total by (cases phone) (auto simp: normalize_phone_def Let_def)

lemma contact_found_match_type:
  "contact_found e rs mt = Inr res \<Longrightarrow> map_get res (ustr ''match_type'') = mt"
  unfolding contact_found_def
  by (auto dest!: ex_bind_InrD simp: map_get_def ustr_inj)

lemma hubspot_search_total: "\<exists>r w1. hubspot_search e req w = (Inr r, w1)"
  using hubspot_search_result [of e req w] by blast

lemma search_total:
  "\<exists>r w1. search_contacts_by_email e email w = (Inr r, w1)"
  "\<exists>r w1. search_contacts_by_phone e ph w = (Inr r, w1)"
  "\<exists>r w1. search_contacts_by_name e f l w = (Inr r, w1)"
  by (simp_all add: search_contacts_by_email_def search_contacts_by_phone_def
      search_contacts_by_name_def io_ret_def Let_def hubspot_search_total)

text \<open>
  C2.  The contact category is a cascade.  The requests it makes are, in this order: the
  email lookup (for a non-empty email other than \<open>nan\<close>); the phone lookup, exactly when
  the email lookup returned nothing and the phone was normalized to a non-empty number;
  the name lookup, exactly when both returned nothing and the first or the last name is
  non-empty.  A non-empty email result is a match of type \<open>email\<close>, a non-empty phone
  result a match of type \<open>phone\<close>.  In the name step each part is scored only when both
  sides are non-empty (0 otherwise), the first candidate in the order of the search whose
  first-name or last-name score reaches 80 is the match (type \<open>name\<close>), and without such a
  candidate the category reports "not found".  A candidate scoring 79 and 81 is accepted.
\<close>

theorem contact_cascade:
  assumes email: "email = dict_get lead (ustr ''email'') (PStr [])"
      and phone: "phone = dict_get lead (ustr ''phone'') (PStr [])"
      and country: "country = dict_get lead (ustr ''country'') (PStr [])"
      and first: "first_name = dict_get lead (ustr ''first_name'') (PStr [])"
      and last: "last_name = dict_get lead (ustr ''last_name'') (PStr [])"
      and p: "normalize_phone e phone country = Inr phone_e164"
      and r1: "search_contacts_by_email e email w = (Inr email_results, w1)"
      and r2: "search_contacts_by_phone e (opt_val phone_e164) w1 = (Inr phone_results, w2)"
      and r3: "search_contacts_by_name e first_name last_name w2 = (Inr name_results, w3)"
      and out: "check_contact_duplicates e lead w = (result, w')"
  shows
    "remote_log w' = remote_log w @
       (if truthy email \<and> email \<noteq> PStr (ustr ''nan'') then [email_request email] else []) @
       (if \<not> truthy email_results \<and> truthy_opt phone_e164
        then [phone_request phone_e164] else []) @
       (if \<not> truthy email_results \<and> \<not> truthy phone_results \<and>
           (truthy first_name \<or> truthy last_name)
        then [name_request first_name last_name] else []) \<and>
     (truthy email_results \<longrightarrow>
        result = contact_found e email_results (PStr (ustr ''email''))) \<and>
     (\<not> truthy email_results \<and> truthy phone_results \<longrightarrow>
        result = contact_found e phone_results (PStr (ustr ''phone''))) \<and>
     (\<not> truthy email_results \<and> \<not> truthy phone_results \<and>
      \<not> (truthy first_name \<or> truthy last_name) \<longrightarrow>
        result = Inr [ustr ''found'' \<mapsto> PBool False]) \<and>
     (\<forall>cands.
        \<not> truthy email_results \<and> \<not> truthy phone_results \<and>
        (truthy first_name \<or> truthy last_name) \<and> name_results = PList cands \<and>
        (\<forall>c\<in>set cands. well_formed_candidate (ustr ''properties'') c) \<longrightarrow>
        result =
          (case find (name_accepts e first_name last_name) cands of
             None \<Rightarrow> Inr [ustr ''found'' \<mapsto> PBool False]
           | Some c \<Rightarrow> contact_found e (PList [c]) (PStr (ustr ''name'')))) \<and>
     (\<forall>c rest. name_scores e first_name last_name c = Inr (79, 81) \<longrightarrow>
        name_loop e first_name last_name (c # rest) = Inr (Some c))"
proof -
  note eq = check_contact_eq [OF email phone country first last p r1 r2 r3]
  note l1 = search_email_log [OF r1]
  note l2 = search_phone_log [OF r2]
  note l3 = search_name_log [OF r3]
  have imp: "truthy phone_results \<Longrightarrow> truthy_opt phone_e164"
    using l2(4) by auto
  have a: "remote_log w' = remote_log w @
       (if truthy email \<and> email \<noteq> PStr (ustr ''nan'') then [email_request email] else []) @
       (if \<not> truthy email_results \<and> truthy_opt phone_e164
        then [phone_request phone_e164] else []) @
       (if \<not> truthy email_results \<and> \<not> truthy phone_results \<and>
           (truthy first_name \<or> truthy last_name)
        then [name_request first_name last_name] else [])"
  proof (cases "truthy email_results")
    case True
    with eq out have "w' = w1" by simp
    with True l1(1) show ?thesis by simp
  next
    case f1: False
    show ?thesis
    proof (cases "truthy phone_results")
      case True
      with f1 eq out have "w' = w2" by simp
      with f1 True imp l1(1) l2(1) show ?thesis by simp
    next
      case f2: False
      show ?thesis
      proof (cases "truthy first_name \<or> truthy last_name")
        case True
        with f1 f2 eq out have "w' = w3" by simp
        with f1 f2 True l1(1) l2(1) l3(1) show ?thesis by simp
      next
        case False
        with f1 f2 eq out have "w' = w2" by simp
        with f1 f2 False l1(1) l2(1) show ?thesis by simp
      qed
    qed
  qed
  have b: "truthy email_results \<longrightarrow>
        result = contact_found e email_results (PStr (ustr ''email''))"
    using eq out by (auto split: if_splits)
  have c: "\<not> truthy email_results \<and> truthy phone_results \<longrightarrow>
        result = contact_found e phone_results (PStr (ustr ''phone''))"
    using eq out by (auto split: if_splits)
  have d: "\<not> truthy email_results \<and> \<not> truthy phone_results \<and>
      \<not> (truthy first_name \<or> truthy last_name) \<longrightarrow>
        result = Inr [ustr ''found'' \<mapsto> PBool False]"
    using eq out by (auto split: if_splits)
  have e: "\<forall>cands.
        \<not> truthy email_results \<and> \<not> truthy phone_results \<and>
        (truthy first_name \<or> truthy last_name) \<and> name_results = PList cands \<and>
        (\<forall>c\<in>set cands. well_formed_candidate (ustr ''properties'') c) \<longrightarrow>
        result =
          (case find (name_accepts e first_name last_name) cands of
             None \<Rightarrow> Inr [ustr ''found'' \<mapsto> PBool False]
           | Some c \<Rightarrow> contact_found e (PList [c]) (PStr (ustr ''name'')))"
  proof (intro allI impI)
    fix cands
    assume h: "\<not> truthy email_results \<and> \<not> truthy phone_results \<and>
        (truthy first_name \<or> truthy last_name) \<and> name_results = PList cands \<and>
        (\<forall>c\<in>set cands. well_formed_candidate (ustr ''properties'') c)"
    then have nl: "name_loop e first_name last_name cands =
        Inr (find (name_accepts e first_name last_name) cands)"
      using name_loop_find by blast
    have "result = (if cands \<noteq> [] then
            (case find (name_accepts e first_name last_name) cands of
               None \<Rightarrow> Inr [ustr ''found'' \<mapsto> PBool False]
             | Some c \<Rightarrow> contact_found e (PList [c]) (PStr (ustr ''name'')))
          else Inr [ustr ''found'' \<mapsto> PBool False])"
      using eq out h by (auto simp: ex_bind_def nl)
    then show "result =
          (case find (name_accepts e first_name last_name) cands of
             None \<Rightarrow> Inr [ustr ''found'' \<mapsto> PBool False]
           | Some c \<Rightarrow> contact_found e (PList [c]) (PStr (ustr ''name'')))"
      by (cases "cands = []") simp_all
  qed
  have g: "\<forall>c rest. name_scores e first_name last_name c = Inr (79, 81) \<longrightarrow>
        name_loop e first_name last_name (c # rest) = Inr (Some c)"
    by simp
  from a b c d e g show ?thesis by blast
qed

theorem contact_cascade_witness:
  "\<exists>res w'.
     check_contact_duplicates name_env lead_c world0 = (Inr res, w') \<and>
     remote_log w' =
       [email_request (PStr (ustr ''c@x.com'')),
        phone_request (Some (ustr ''+48600100200'')),
        name_request (PStr (ustr ''Jon'')) (PStr (ustr ''Smith''))] \<and>
     name_scores name_env (PStr (ustr ''Jon'')) (PStr (ustr ''Smith''))
       (contact_of ''202'' ''John'' ''Smyth'') = Inr (79, 81) \<and>
     map_get res (ustr ''contact_id'') = PStr (ustr ''202'') \<and>
     map_get res (ustr ''match_type'') = PStr (ustr ''name'')"
proof -
  define wa where "wa = world0\<lparr>remote_log := [email_request (PStr (ustr ''c@x.com''))]\<rparr>"
  define wb where "wb = wa\<lparr>remote_log := remote_log wa @
      [phone_request (Some (ustr ''+48600100200''))]\<rparr>"
  define wc where "wc = wb\<lparr>remote_log := remote_log wb @
      [name_request (PStr (ustr ''Jon'')) (PStr (ustr ''Smith''))]\<rparr>"
  have email: "PStr (ustr ''c@x.com'') = dict_get lead_c (ustr ''email'') (PStr [])"
    and phone: "PStr (ustr '' 600 100 200  '') = dict_get lead_c (ustr ''phone'') (PStr [])"
    and country: "PStr (ustr ''pl'') = dict_get lead_c (ustr ''country'') (PStr [])"
    and first: "PStr (ustr ''Jon'') = dict_get lead_c (ustr ''first_name'') (PStr [])"
    and last: "PStr (ustr ''Smith'') = dict_get lead_c (ustr ''last_name'') (PStr [])"
    by (simp_all add: lead_c_def dict_get_def ustr_inj)
  have p: "normalize_phone name_env (PStr (ustr '' 600 100 200  '')) (PStr (ustr ''pl''))
      = Inr (Some (ustr ''+48600100200''))"
    by (simp add: eval_defs name_defs)
  have r1: "search_contacts_by_email name_env (PStr (ustr ''c@x.com'')) world0 = (Inr (PList []), wa)"
    by (simp add: wa_def email_request_def eval_defs name_defs world0_def)
  have r2: "search_contacts_by_phone name_env (opt_val (Some (ustr ''+48600100200''))) wa
      = (Inr (PList []), wb)"
    by (simp add: wb_def phone_request_def eval_defs name_defs)
  have r3: "search_contacts_by_name name_env (PStr (ustr ''Jon'')) (PStr (ustr ''Smith'')) wb
      = (Inr (PList name_cands), wc)"
    by (simp add: wc_def name_request_def eval_defs name_env_def name_http_def)
  obtain result w' where out: "check_contact_duplicates name_env lead_c world0 = (result, w')"
    by fastforce
  have wf: "\<forall>c\<in>set name_cands. well_formed_candidate (ustr ''properties'') c"
    by (simp add: name_cands_def contact_of_def well_formed_candidate_def dict_get_def ustr_inj)
  have fnd: "find (name_accepts name_env (PStr (ustr ''Jon'')) (PStr (ustr ''Smith''))) name_cands
      = Some (contact_of ''202'' ''John'' ''Smyth'')"
    by (simp add: name_accepts_def part_score_def cand_field_def eval_defs name_defs)
  have sc: "name_scores name_env (PStr (ustr ''Jon'')) (PStr (ustr ''Smith''))
       (contact_of ''202'' ''John'' ''Smyth'') = Inr (79, 81)"
    by (simp add: eval_defs name_defs)
  have cf: "\<exists>res. contact_found name_env (PList [contact_of ''202'' ''John'' ''Smyth''])
       (PStr (ustr ''name'')) = Inr res \<and>
       map_get res (ustr ''contact_id'') = PStr (ustr ''202'') \<and>
       map_get res (ustr ''match_type'') = PStr (ustr ''name'')"
    by (simp add: eval_defs contact_of_def map_get_def)
  note t = contact_cascade [OF email phone country first last p r1 r2 r3 out]
  from t have log: "remote_log w' =
       [email_request (PStr (ustr ''c@x.com'')),
        phone_request (Some (ustr ''+48600100200'')),
        name_request (PStr (ustr ''Jon'')) (PStr (ustr ''Smith''))]"
    by (simp add: world0_def truthy_opt_def ustr_Nil ustr_inj)
  from t wf have "result =
          (case find (name_accepts name_env (PStr (ustr ''Jon'')) (PStr (ustr ''Smith''))) name_cands of
             None \<Rightarrow> Inr [ustr ''found'' \<mapsto> PBool False]
           | Some c \<Rightarrow> contact_found name_env (PList [c]) (PStr (ustr ''name'')))"
    by (simp add: ustr_Nil)
  then have "result = contact_found name_env (PList [contact_of ''202'' ''John'' ''Smyth''])
       (PStr (ustr ''name''))" by (simp add: fnd)
  with cf out log sc show ?thesis by auto
qed

text \<open>
  C10.  For a lead whose email is the string \<open>nan\<close> the email lookup returns the empty
  list without a request, as it does for the empty email; the contact check behaves as
  for the same lead with an empty email, never reports a match of type \<open>email\<close>, and makes
  no email request: it goes on to the phone and name steps.
\<close>

theorem nan_email_skips_lookup:
  assumes nan: "map_of lead (ustr ''email'') = Some (PStr (ustr ''nan''))"
  shows "search_contacts_by_email e (dict_get lead (ustr ''email'') (PStr [])) w =
           (Inr (PList []), w) \<and>
         search_contacts_by_email e (PStr []) w = (Inr (PList []), w) \<and>
         check_contact_duplicates e lead w =
           check_contact_duplicates e ((ustr ''email'', PStr []) # lead) w \<and>
         (\<forall>res w'. check_contact_duplicates e lead w = (Inr res, w') \<longrightarrow>
            map_get res (ustr ''match_type'') \<noteq> PStr (ustr ''email'') \<and>
            (\<exists>new. remote_log w' = remote_log w @ new \<and>
                   \<not> (\<exists>q\<in>set new. is_email_lookup q)))"
proof (intro conjI allI impI)
  have em: "dict_get lead (ustr ''email'') (PStr []) = PStr (ustr ''nan'')"
    using nan by (simp add: dict_get_def)
  show s1: "search_contacts_by_email e (dict_get lead (ustr ''email'') (PStr [])) w =
           (Inr (PList []), w)"
    by (simp add: em search_contacts_by_email_def io_ret_def)
  show s2: "search_contacts_by_email e (PStr []) w = (Inr (PList []), w)"
    by (simp add: search_contacts_by_email_def io_ret_def)
  show "check_contact_duplicates e lead w =
           check_contact_duplicates e ((ustr ''email'', PStr []) # lead) w"
  proof -
    have g: "dict_get ((ustr ''email'', PStr []) # lead) k d = dict_get lead k d"
      if "k \<noteq> ustr ''email''" for k d
      using that by (simp add: dict_get_def)
    have ge: "dict_get ((ustr ''email'', PStr []) # lead) (ustr ''email'') d = PStr []" for d
      by (simp add: dict_get_def)
    have se: "search_contacts_by_email e (PStr (ustr ''nan'')) = io_ret (PList [])"
      "search_contacts_by_email e (PStr []) = io_ret (PList [])"
      by (simp_all add: search_contacts_by_email_def)
    show ?thesis
      unfolding check_contact_duplicates_def Let_def
      by (simp add: g ge em se ustr_inj cong: if_cong)
  qed
  fix res w'
  assume out: "check_contact_duplicates e lead w = (Inr res, w')"
  obtain p where p: "normalize_phone e (dict_get lead (ustr ''phone'') (PStr []))
      (dict_get lead (ustr ''country'') (PStr [])) = Inr p"
    using normalize_phone_total by blast
  obtain r2 w2 where r2: "search_contacts_by_phone e (opt_val p) w = (Inr r2, w2)"
    using search_total(2) by blast
  obtain r3 w3 where r3: "search_contacts_by_name e (dict_get lead (ustr ''first_name'') (PStr []))
      (dict_get lead (ustr ''last_name'') (PStr [])) w2 = (Inr r3, w3)"
    using search_total(3) by blast
  note eq = check_contact_eq [OF refl refl refl refl refl p s1 r2 r3]
  note l2 = search_phone_log [OF r2]
  note l3 = search_name_log [OF r3]
  show "map_get res (ustr ''match_type'') \<noteq> PStr (ustr ''email'')"
    using eq out
    by (auto simp: map_get_def ustr_inj ex_bind_def dest!: contact_found_match_type [OF sym]
        split: if_splits sum.splits option.splits)
  have w': "w' = w2 \<or> w' = w3" using eq out by (auto split: if_splits)
  have ne: "\<not> is_email_lookup (phone_request p)"
    "\<not> is_email_lookup (name_request f l)" if "truthy f \<or> truthy l" for f l
    using that by (auto simp: is_email_lookup_def phone_request_def name_request_def ustr_inj)
  from w' show "\<exists>new. remote_log w' = remote_log w @ new \<and> \<not> (\<exists>q\<in>set new. is_email_lookup q)"
  proof
    assume "w' = w2"
    then have "remote_log w' = remote_log w @ (if truthy_opt p then [phone_request p] else [])"
      using l2(1) by simp
    moreover have "\<not> (\<exists>q\<in>set (if truthy_opt p then [phone_request p] else []). is_email_lookup q)"
      by (simp add: is_email_lookup_def phone_request_def ustr_inj)
    ultimately show ?thesis by blast
  next
    assume "w' = w3"
    let ?f = "dict_get lead (ustr ''first_name'') (PStr [])"
    let ?l = "dict_get lead (ustr ''last_name'') (PStr [])"
    let ?new = "(if truthy_opt p then [phone_request p] else []) @
            (if truthy ?f \<or> truthy ?l then [name_request ?f ?l] else [])"
    from \<open>w' = w3\<close> have "remote_log w' = remote_log w @ ?new"
      using l2(1) l3(1) by simp
    moreover have "\<not> (\<exists>q\<in>set ?new. is_email_lookup q)"
      by (auto simp: is_email_lookup_def phone_request_def name_request_def ustr_inj)
    ultimately show ?thesis by blast
  qed
qed

theorem nan_email_skips_lookup_witness:
  "map_of lead_n (ustr ''email'') = Some (PStr (ustr ''nan'')) \<and>
   search_contacts_by_email crm_env (dict_get lead_n (ustr ''email'') (PStr [])) world0 =
     (Inr (PList []), world0) \<and>
   (\<exists>res w'. check_contact_duplicates crm_env lead_n world0 = (Inr res, w') \<and>
      map_get res (ustr ''match_type'') = PStr (ustr ''name'') \<and>
      map_get res (ustr ''match_type'') \<noteq> PStr (ustr ''email'') \<and>
      \<not> (\<exists>q\<in>set (remote_log w'). is_email_lookup q))"
proof -
  have nan: "map_of lead_n (ustr ''email'') = Some (PStr (ustr ''nan''))"
    by (simp add: lead_n_def ustr_inj)
  note t = nan_email_skips_lookup [OF nan, of crm_env world0]
  have ev: "\<exists>res w'. check_contact_duplicates crm_env lead_n world0 = (Inr res, w') \<and>
      map_get res (ustr ''match_type'') = PStr (ustr ''name'')"
    by (simp add: eval_defs crm_env_def crm_http_def base_env_def lead_n_def contact_a_def
        map_get_def ascii_lower_def exact_ratio_def)
  then obtain res w' where r: "check_contact_duplicates crm_env lead_n world0 = (Inr res, w')"
    "map_get res (ustr ''match_type'') = PStr (ustr ''name'')" by blast
  from t r(1) have ne: "map_get res (ustr ''match_type'') \<noteq> PStr (ustr ''email'')"
    and "\<exists>new. remote_log w' = remote_log world0 @ new \<and> \<not> (\<exists>q\<in>set new. is_email_lookup q)"
    by blast+
  then have "\<not> (\<exists>q\<in>set (remote_log w'). is_email_lookup q)"
    by (auto simp: world0_def)
  with t r ne nan show ?thesis by blast
qed


end
